theory Spec2Isabelle
  imports Main "HOL-Library.Sublist"
begin

section \<open>Python strings\<close>

text \<open>
  A Python \<open>str\<close> is a sequence of Unicode code points, so a string is a list of
  code points (natural numbers). The literals of the sources are written with \<open>cps\<close>
  when they are ASCII and as explicit code points when they are Chinese.
\<close>

type_synonym pystr = "nat list"

definition cps :: "string \<Rightarrow> pystr" where
  "cps s = map of_char s"

section \<open>The report store (store/eastmoney/\_store\_impl.py)\<close>

text \<open>
  \<open>DownloadStatus\<close> of media\_platform/eastmoney/field.py; the store writes its string
  values \<open>"pending"\<close>, \<open>"completed"\<close>, \<open>"failed"\<close> and \<open>"no_pdf"\<close>.
\<close>

datatype download_status = Pending | Downloading | Completed | Failed | NoPdf

text \<open>
  The dictionary \<open>content_item\<close> handed to \<open>store_content\<close>: one optional field per
  key the store reads, \<open>None\<close> when the key is absent from the dictionary.
\<close>

record content_item =
  ci_infocode :: "pystr option"
  ci_report_title :: "pystr option"
  ci_org_name :: "pystr option"
  ci_analyst :: "pystr option"
  ci_publish_date :: "pystr option"
  ci_industry :: "pystr option"
  ci_stock_code :: "pystr option"
  ci_rating :: "pystr option"
  ci_pdf_url :: "pystr option"
  ci_pdf_path :: "pystr option"
  ci_pdf_size :: "int option"
  ci_pdf_pages :: "int option"
  ci_attach_type :: "pystr option"
  ci_download_status :: "download_status option"
  ci_error_message :: "pystr option"

text \<open>One row of the table behind the ORM class \<open>EastmoneyReport\<close>.\<close>

record report_row =
  infocode :: "pystr option"
  report_title :: pystr
  org_name :: pystr
  analyst :: pystr
  publish_date :: pystr
  industry :: pystr
  stock_code :: pystr
  rating :: pystr
  pdf_url :: pystr
  pdf_path :: pystr
  pdf_size :: int
  pdf_pages :: int
  attach_type :: pystr
  download_status :: download_status
  error_message :: pystr
  create_time :: int
  update_time :: int

text \<open>
  The table is the list of its rows, in insertion order. Nothing in the sources under
  study declares the identifier unique, so the model does not build uniqueness in: that
  one identifier has one row is a property of \<open>store_content\<close>, proved below.
\<close>

type_synonym report_table = "report_row list"

datatype store_error = SessionError

text \<open>\<open>dict.get(key, default)\<close>.\<close>

definition get_or :: "'a \<Rightarrow> 'a option \<Rightarrow> 'a" where
  "get_or d v = (case v of None \<Rightarrow> d | Some x \<Rightarrow> x)"

text \<open>\<open>report_is_exist\<close>: the select on \<open>infocode\<close> returns a first row.\<close>

definition report_is_exist :: "report_table \<Rightarrow> pystr \<Rightarrow> bool" where
  "report_is_exist tbl ic = (filter (\<lambda>r. infocode r = Some ic) tbl \<noteq> [])"

text \<open>\<open>add_report\<close>: a new row, both timestamps the current time.\<close>

definition add_report :: "int \<Rightarrow> content_item \<Rightarrow> report_table \<Rightarrow> report_table" where
  "add_report current_time item tbl = tbl @
     [\<lparr> infocode = ci_infocode item,
        report_title = get_or [] (ci_report_title item),
        org_name = get_or [] (ci_org_name item),
        analyst = get_or [] (ci_analyst item),
        publish_date = get_or [] (ci_publish_date item),
        industry = get_or [] (ci_industry item),
        stock_code = get_or [] (ci_stock_code item),
        rating = get_or [] (ci_rating item),
        pdf_url = get_or [] (ci_pdf_url item),
        pdf_path = get_or [] (ci_pdf_path item),
        pdf_size = get_or 0 (ci_pdf_size item),
        pdf_pages = get_or 0 (ci_pdf_pages item),
        attach_type = get_or [] (ci_attach_type item),
        download_status = get_or Pending (ci_download_status item),
        error_message = get_or [] (ci_error_message item),
        create_time = current_time,
        update_time = current_time \<rparr>]"

text \<open>
  \<open>update_report\<close>: \<open>update_data\<close> always holds \<open>update_time\<close>, and each of the five
  other columns only when its key is in the dictionary; the UPDATE statement writes
  \<open>update_data\<close> to every row whose \<open>infocode\<close> matches.
\<close>

definition apply_update_data :: "int \<Rightarrow> content_item \<Rightarrow> report_row \<Rightarrow> report_row" where
  "apply_update_data current_time item r =
     r\<lparr> update_time := current_time,
        pdf_path := get_or (pdf_path r) (ci_pdf_path item),
        download_status := get_or (download_status r) (ci_download_status item),
        error_message := get_or (error_message r) (ci_error_message item),
        pdf_size := get_or (pdf_size r) (ci_pdf_size item),
        pdf_pages := get_or (pdf_pages r) (ci_pdf_pages item) \<rparr>"

definition update_report :: "int \<Rightarrow> content_item \<Rightarrow> report_table \<Rightarrow> report_table" where
  "update_report current_time item tbl =
     map (\<lambda>r. if infocode r = ci_infocode item then apply_update_data current_time item r else r) tbl"

text \<open>
  \<open>store_content\<close>. A missing or empty identifier returns before the session is opened.
  Opening the session (\<open>get_session\<close>, not among the sources) is the parameter
  \<open>session_ok\<close>: when it fails the call raises and the table is as before.
\<close>

definition store_content ::
  "bool \<Rightarrow> int \<Rightarrow> content_item \<Rightarrow> report_table \<Rightarrow> store_error + report_table" where
  "store_content session_ok current_time item tbl =
     (case ci_infocode item of
        None \<Rightarrow> Inr tbl
      | Some ic \<Rightarrow>
          if ic = [] then Inr tbl
          else if \<not> session_ok then Inl SessionError
          else if report_is_exist tbl ic then Inr (update_report current_time item tbl)
          else Inr (add_report current_time item tbl))"

text \<open>The rows stored under one identifier.\<close>

definition rows_for :: "report_table \<Rightarrow> pystr \<Rightarrow> report_row list" where
  "rows_for tbl ic = filter (\<lambda>r. infocode r = Some ic) tbl"

text \<open>A dictionary with none of the keys, from which the examples are built.\<close>

definition blank_item :: content_item where
  "blank_item = \<lparr> ci_infocode = None, ci_report_title = None, ci_org_name = None,
     ci_analyst = None, ci_publish_date = None, ci_industry = None, ci_stock_code = None,
     ci_rating = None, ci_pdf_url = None, ci_pdf_path = None, ci_pdf_size = None,
     ci_pdf_pages = None, ci_attach_type = None, ci_download_status = None,
     ci_error_message = None \<rparr>"

section \<open>The attachment fetcher (media\_platform/eastmoney/client.py)\<close>

type_synonym bytes = "nat list"

text \<open>
  What one HTTP request comes to: a response with its status code and body, or an
  \<open>httpx.RequestError\<close> (connection failure, timeout) with its message.
\<close>

datatype http_result = Response nat bytes | RequestError pystr

text \<open>
  \<open>Response.raise_for_status\<close> raises \<open>HTTPStatusError\<close> unless the code is 2xx (as
  httpx does now; earlier versions raised for 4xx and 5xx only).
\<close>

definition is_success :: "nat \<Rightarrow> bool" where
  "is_success code = (200 \<le> code \<and> code < 300)"

text \<open>One run of the body of \<open>download_pdf\<close> sends a HEAD and then a GET request.\<close>

record attempt =
  head_result :: http_result
  get_result :: http_result

datatype fetch_error = PDFDownloadError pystr | RetryError

text \<open>The decimal digits of a number, as an f-string prints it.\<close>

fun decimal :: "nat \<Rightarrow> pystr" where
  "decimal n = (if n < 10 then [48 + n] else decimal (n div 10) @ [48 + n mod 10])"

declare decimal.simps [simp del]

text \<open>The prefixes of the two messages of \<open>PDFDownloadError\<close> that can arise.\<close>

definition msg_http_status :: pystr where
  "msg_http_status = cps ''HTTP'' @ [29366, 24577, 38169, 35823] @ cps '': ''"

definition msg_request_error :: pystr where
  "msg_request_error = [35831, 27714, 38169, 35823] @ cps '': ''"

text \<open>
  The body of \<open>download_pdf\<close>, without its decorator. An \<open>HTTPStatusError\<close> of the HEAD
  request is passed over; a \<open>RequestError\<close> of it is not. A timeout is a
  \<open>RequestError\<close>, so the last \<open>except\<close> clause is never reached. The content type only
  decides about a warning.
\<close>

definition download_pdf_body :: "attempt \<Rightarrow> fetch_error + bytes option" where
  "download_pdf_body a =
     (case head_result a of
        RequestError m \<Rightarrow> Inl (PDFDownloadError (msg_request_error @ m))
      | Response head_code head_body \<Rightarrow>
          (case get_result a of
             RequestError m \<Rightarrow> Inl (PDFDownloadError (msg_request_error @ m))
           | Response code content \<Rightarrow>
               if is_success code then Inr (Some content)
               else if code = 404 then Inr None
               else Inl (PDFDownloadError (msg_http_status @ decimal code))))"

text \<open>
  The decorator \<open>@retry(stop=stop_after_attempt(MAX_RETRIES), ...)\<close>: the body is run
  again after every exception, and after attempt \<open>MAX_RETRIES\<close> has raised,
  \<open>RetryError\<close> is raised in place of the body's exception. \<open>net n\<close> is what the network
  answers at attempt \<open>n\<close>, counted from 1; the result comes with the number of the last
  attempt made.
\<close>

definition MAX_RETRIES :: nat where
  "MAX_RETRIES = 3"

primrec retrying :: "nat \<Rightarrow> nat \<Rightarrow> (nat \<Rightarrow> attempt) \<Rightarrow> (fetch_error + bytes option) \<times> nat" where
  "retrying 0 n net =
     (case download_pdf_body (net n) of
        Inr v \<Rightarrow> (Inr v, n)
      | Inl e \<Rightarrow> (Inl RetryError, n))"
| "retrying (Suc k) n net =
     (case download_pdf_body (net n) of
        Inr v \<Rightarrow> (Inr v, n)
      | Inl e \<Rightarrow> retrying k (Suc n) net)"

definition download_pdf :: "(nat \<Rightarrow> attempt) \<Rightarrow> (fetch_error + bytes option) \<times> nat" where
  "download_pdf net = retrying (MAX_RETRIES - 1) 1 net"

section \<open>Processing one report (media\_platform/eastmoney/core.py)\<close>

text \<open>
  One record of the listing's \<open>data\<close> array: the keys \<open>_process_report\<close> reads, \<open>None\<close>
  when the key is absent.
\<close>

record report_data =
  rd_infoCode :: "pystr option"
  rd_title :: "pystr option"
  rd_orgName :: "pystr option"
  rd_researcher :: "pystr option"
  rd_publishDate :: "pystr option"
  rd_indvInduName :: "pystr option"
  rd_stockCode :: "pystr option"
  rd_emRatingName :: "pystr option"
  rd_attachSize :: "int option"
  rd_attachPages :: "int option"
  rd_attachType :: "pystr option"

text \<open>
  What a crawl changes: the table, the files written under their paths, and, as a log,
  the identifiers \<open>download_pdf\<close> was called for, each with the number of attempts made.
\<close>

record crawl_state =
  table :: report_table
  files :: "pystr \<rightharpoonup> bytes"
  fetches :: "(pystr \<times> nat) list"

datatype crawl_error = DownloadGaveUp | StoreFailed store_error

definition PDF_BASE_URL :: pystr where
  "PDF_BASE_URL = cps ''https://pdf.dfcfw.com/pdf''"

definition PDF_SAVE_DIR :: pystr where
  "PDF_SAVE_DIR = cps ''./data/eastmoney/pdf''"

definition get_pdf_url :: "pystr \<Rightarrow> pystr" where
  "get_pdf_url ic = PDF_BASE_URL @ cps ''/H3_'' @ ic @ cps ''_1.pdf''"

text \<open>\<open>os.path.join\<close> of the directory above and a file name (POSIX).\<close>

definition os_path_join :: "pystr \<Rightarrow> pystr \<Rightarrow> pystr" where
  "os_path_join dir name =
     (if name \<noteq> [] \<and> hd name = 47 then name
      else if dir = [] \<or> last dir = 47 then dir @ name
      else dir @ [47] @ name)"

text \<open>
  \<open>store_pdf\<close>, reached through \<open>save_pdf_file\<close> with the extension \<open>".pdf"\<close>: the path
  written and returned, or the empty string with nothing written. Creating the directory
  and writing the file are taken to succeed.
\<close>

definition store_pdf :: "pystr \<Rightarrow> bytes \<Rightarrow> (pystr \<rightharpoonup> bytes) \<Rightarrow> pystr \<times> (pystr \<rightharpoonup> bytes)" where
  "store_pdf ic pdf_content fs =
     (if pdf_content = [] \<or> ic = [] then ([], fs)
      else let file_path = os_path_join PDF_SAVE_DIR (ic @ cps ''.pdf'')
           in (file_path, fs(file_path \<mapsto> pdf_content)))"

text \<open>\<open>update_eastmoney_report\<close> with the SQLite store, as \<open>manual_crawl\<close> selects it.\<close>

definition update_eastmoney_report ::
  "bool \<Rightarrow> int \<Rightarrow> content_item \<Rightarrow> crawl_state \<Rightarrow> crawl_state \<times> crawl_error option" where
  "update_eastmoney_report session_ok now item st =
     (case store_content session_ok now item (table st) of
        Inl e \<Rightarrow> (st, Some (StoreFailed e))
      | Inr tbl \<Rightarrow> (st\<lparr>table := tbl\<rparr>, None))"

text \<open>The dictionary \<open>db_item\<close> as \<open>_process_report\<close> first builds it.\<close>

definition db_item_of :: "pystr \<Rightarrow> report_data \<Rightarrow> content_item" where
  "db_item_of info_code rd =
     \<lparr> ci_infocode = Some info_code,
       ci_report_title = Some (get_or [] (rd_title rd)),
       ci_org_name = Some (get_or [] (rd_orgName rd)),
       ci_analyst = Some (get_or [] (rd_researcher rd)),
       ci_publish_date = Some (get_or [] (rd_publishDate rd)),
       ci_industry = Some (get_or [] (rd_indvInduName rd)),
       ci_stock_code = Some (get_or [] (rd_stockCode rd)),
       ci_rating = Some (get_or [] (rd_emRatingName rd)),
       ci_pdf_url = Some (get_pdf_url info_code),
       ci_pdf_path = None,
       ci_pdf_size = Some (get_or 0 (rd_attachSize rd)),
       ci_pdf_pages = Some (get_or 0 (rd_attachPages rd)),
       ci_attach_type = Some (get_or [] (rd_attachType rd)),
       ci_download_status = None,
       ci_error_message = None \<rparr>"

text \<open>
  \<open>_process_report\<close>. The value it returns is not used by its caller and is left out;
  the second component is the exception that leaves it, if any. \<open>net\<close> is what the
  network answers to the attempts of this one download. The clause for
  \<open>PDFDownloadError\<close> is kept as written, although the decorated \<open>download_pdf\<close> raises
  \<open>RetryError\<close> only.
\<close>

definition process_report ::
  "bool \<Rightarrow> int \<Rightarrow> (nat \<Rightarrow> attempt) \<Rightarrow> report_data \<Rightarrow> crawl_state \<Rightarrow> crawl_state \<times> crawl_error option" where
  "process_report session_ok now net rd st =
     (let info_code = get_or [] (rd_infoCode rd) in
      if info_code = [] then (st, None)
      else
        let db_item = db_item_of info_code rd in
        if rd_attachType rd \<noteq> Some (cps ''0'') then
          update_eastmoney_report session_ok now
            (db_item\<lparr>ci_download_status := Some NoPdf,
                     ci_error_message := Some (cps ''No PDF attachment'')\<rparr>) st
        else
          let (outcome, n) = download_pdf net;
              st1 = st\<lparr>fetches := fetches st @ [(info_code, n)]\<rparr>
          in case outcome of
               Inl RetryError \<Rightarrow> (st1, Some DownloadGaveUp)
             | Inl (PDFDownloadError m) \<Rightarrow>
                 update_eastmoney_report session_ok now
                   (db_item\<lparr>ci_download_status := Some Failed, ci_error_message := Some m\<rparr>) st1
             | Inr pdf_content \<Rightarrow>
                 if pdf_content \<noteq> None \<and> pdf_content \<noteq> Some [] then
                   let (pdf_path, fs) = store_pdf info_code (the pdf_content) (files st1) in
                   update_eastmoney_report session_ok now
                     (db_item\<lparr>ci_pdf_path := Some pdf_path, ci_download_status := Some Completed\<rparr>)
                     (st1\<lparr>files := fs\<rparr>)
                 else
                   update_eastmoney_report session_ok now
                     (db_item\<lparr>ci_download_status := Some Failed,
                              ci_error_message := Some (cps ''PDF download returned None'')\<rparr>) st1)"

text \<open>The path under which the attachment of an identifier is saved.\<close>

definition holding_path :: "pystr \<Rightarrow> pystr" where
  "holding_path ic = os_path_join PDF_SAVE_DIR (ic @ cps ''.pdf'')"

text \<open>Listing records, a stored row, states and networks for the examples.\<close>

definition blank_report_data :: report_data where
  "blank_report_data = \<lparr> rd_infoCode = None, rd_title = None, rd_orgName = None,
     rd_researcher = None, rd_publishDate = None, rd_indvInduName = None,
     rd_stockCode = None, rd_emRatingName = None, rd_attachSize = None,
     rd_attachPages = None, rd_attachType = None \<rparr>"

definition example_report_data :: report_data where
  "example_report_data = blank_report_data\<lparr> rd_infoCode := Some (cps ''AP1''),
     rd_title := Some (cps ''T''), rd_attachPages := Some 12, rd_attachType := Some (cps ''0'') \<rparr>"

definition example_completed_row :: report_row where
  "example_completed_row = \<lparr> infocode = Some (cps ''AP1''), report_title = cps ''T'',
     org_name = [], analyst = [], publish_date = [], industry = [], stock_code = [],
     rating = [], pdf_url = get_pdf_url (cps ''AP1''), pdf_path = holding_path (cps ''AP1''),
     pdf_size = 0, pdf_pages = 12, attach_type = cps ''0'', download_status = Completed,
     error_message = [], create_time = 100, update_time = 100 \<rparr>"

definition example_state :: crawl_state where
  "example_state = \<lparr> table = [example_completed_row], files = Map.empty, fetches = [] \<rparr>"

definition answer_all :: "http_result \<Rightarrow> nat \<Rightarrow> attempt" where
  "answer_all r n = \<lparr> head_result = r, get_result = r \<rparr>"

definition empty_state :: crawl_state where
  "empty_state = \<lparr> table = [], files = Map.empty, fetches = [] \<rparr>"

definition fail_then :: "http_result \<Rightarrow> nat \<Rightarrow> attempt" where
  "fail_then r n = (if n = 1 then answer_all (RequestError (cps ''reset'')) n else answer_all r n)"

section \<open>The crawl loop (EastmoneyCrawler.start)\<close>

text \<open>
  What one call of \<open>fetch_report_list\<close> comes to: the list under \<open>data\<close> (empty also
  when it is \<open>None\<close>), or an exception (after the retries of the decorator).
\<close>

datatype page_result = Page "report_data list" | FetchRaised

text \<open>
  The world a crawl runs in: whether the store opens a session, what the listing answers
  for each page number, what the network answers to each attempt of the download of the
  report at a position of a page, and the clock read when that report is stored.
\<close>

record crawl_env =
  env_session_ok :: bool
  env_pages :: "nat \<Rightarrow> page_result"
  env_net :: "nat \<Rightarrow> nat \<Rightarrow> nat \<Rightarrow> attempt"
  env_clock :: "nat \<Rightarrow> nat \<Rightarrow> int"

text \<open>\<open>max_notes = eastmoney_config.PAGE_SIZE * 5\<close>.\<close>

definition PAGE_SIZE :: nat where
  "PAGE_SIZE = 50"

definition max_notes :: nat where
  "max_notes = PAGE_SIZE * 5"

text \<open>The \<open>for\<close> loop over the reports of a page; an exception leaves it at once.\<close>

fun process_reports ::
  "crawl_env \<Rightarrow> nat \<Rightarrow> nat \<Rightarrow> report_data list \<Rightarrow> crawl_state \<Rightarrow> crawl_state \<times> crawl_error option" where
  "process_reports env page_no i [] st = (st, None)"
| "process_reports env page_no i (report_data # rest) st =
     (case process_report (env_session_ok env) (env_clock env page_no i) (env_net env page_no i) report_data st of
        (st', Some e) \<Rightarrow> (st', Some e)
      | (st', None) \<Rightarrow> process_reports env page_no (Suc i) rest st')"

text \<open>What \<open>start\<close> leaves behind.\<close>

record crawl_result =
  final_state :: crawl_state
  all_reports :: "report_data list"
  pages_fetched :: "nat list"

text \<open>
  The \<open>while\<close> loop of \<open>start\<close>. \<open>fetched\<close> logs the page numbers
  \<open>fetch_report_list\<close> was called with. Both \<open>except\<close> clauses and the empty page
  \<open>break\<close>.
\<close>

function crawl_loop ::
  "crawl_env \<Rightarrow> nat \<Rightarrow> report_data list \<Rightarrow> nat list \<Rightarrow> crawl_state \<Rightarrow> crawl_result" where
  "crawl_loop env page_no all fetched st =
     (if length all < max_notes then
        (case env_pages env page_no of
           FetchRaised \<Rightarrow>
             \<lparr> final_state = st, all_reports = all, pages_fetched = fetched @ [page_no] \<rparr>
         | Page reports \<Rightarrow>
             if reports = [] then
               \<lparr> final_state = st, all_reports = all, pages_fetched = fetched @ [page_no] \<rparr>
             else
               (case process_reports env page_no 0 reports st of
                  (st', Some e) \<Rightarrow>
                    \<lparr> final_state = st', all_reports = all @ reports,
                      pages_fetched = fetched @ [page_no] \<rparr>
                | (st', None) \<Rightarrow>
                    crawl_loop env (page_no + 1) (all @ reports) (fetched @ [page_no]) st'))
      else \<lparr> final_state = st, all_reports = all, pages_fetched = fetched \<rparr>)"
  by pat_completeness auto

termination
  by (relation "measure (\<lambda>(env, page_no, all, fetched, st). max_notes - length all)")
    (auto intro!: diff_less_mono2)

declare crawl_loop.simps [simp del]

definition start :: "crawl_env \<Rightarrow> crawl_state \<Rightarrow> crawl_result" where
  "start env st = crawl_loop env 1 [] [] st"

text \<open>A page before the last one fetched returned records.\<close>

definition returned_records :: "crawl_env \<Rightarrow> nat \<Rightarrow> bool" where
  "returned_records env p = (case env_pages env p of Page reports \<Rightarrow> reports \<noteq> [] | FetchRaised \<Rightarrow> False)"

text \<open>Every page that returns records returns at least \<open>PAGE_SIZE\<close> of them.\<close>

definition full_pages :: "crawl_env \<Rightarrow> bool" where
  "full_pages env = (\<forall>p rs. env_pages env p = Page rs \<longrightarrow> rs \<noteq> [] \<longrightarrow> PAGE_SIZE \<le> length rs)"

text \<open>A listing of one page with one report that has no attachment, for the examples.\<close>

definition example_no_pdf_data :: report_data where
  "example_no_pdf_data = blank_report_data\<lparr> rd_infoCode := Some (cps ''AP2''),
     rd_attachType := Some (cps ''1'') \<rparr>"

definition small_env :: crawl_env where
  "small_env = \<lparr> env_session_ok = True,
     env_pages = (\<lambda>p. if p = 1 then Page [example_no_pdf_data] else Page []),
     env_net = (\<lambda>p i. answer_all (Response 404 [])),
     env_clock = (\<lambda>p i. 100) \<rparr>"

section \<open>Unwrapping the callback envelope (EastmoneyClient.\_parse\_jsonp\_response)\<close>

text \<open>The code points of the two braces.\<close>

definition LBRACE :: nat where
  "LBRACE = 123"

definition RBRACE :: nat where
  "RBRACE = 125"

text \<open>\<open>str.find\<close> for one character: the lowest index, \<open>None\<close> for Python's \<open>-1\<close>.\<close>

fun find_char :: "nat \<Rightarrow> pystr \<Rightarrow> nat option" where
  "find_char c [] = None"
| "find_char c (x # xs) =
     (if x = c then Some 0 else map_option Suc (find_char c xs))"

text \<open>
  The \<open>for\<close> loop over the indices from \<open>start_idx\<close>: \<open>cs\<close> is the text from index
  \<open>i\<close> on. It returns the index at which \<open>depth\<close> comes back to \<open>0\<close> on a closing
  brace, \<open>None\<close> when the text ends first.
\<close>

fun scan_braces :: "pystr \<Rightarrow> int \<Rightarrow> nat \<Rightarrow> nat option" where
  "scan_braces [] depth i = None"
| "scan_braces (c # cs) depth i =
     (if c = LBRACE then scan_braces cs (depth + 1) (i + 1)
      else if c = RBRACE then
        (if depth - 1 = 0 then Some i else scan_braces cs (depth - 1) (i + 1))
      else scan_braces cs depth (i + 1))"

text \<open>The slice \<open>s[a:b]\<close> for \<open>0 \<le> a \<le> b\<close>.\<close>

definition slice :: "pystr \<Rightarrow> nat \<Rightarrow> nat \<Rightarrow> pystr" where
  "slice s a b = take (b - a) (drop a s)"

text \<open>
  The three places that raise \<open>JSONPParseError\<close>: no opening brace, no matching closing
  brace, and \<open>json.JSONDecodeError\<close> turned into \<open>JSONPParseError\<close>. The exception
  classes are not among the sources; \<open>JSONPParseError\<close> is taken not to be a
  \<open>JSONDecodeError\<close>, so the first two pass the \<open>except\<close> clause as they are.
\<close>

datatype jsonp_reason = NoStart | NoEnd | DecodeFailed

datatype jsonp_error = JSONPParseError jsonp_reason

text \<open>
  \<open>json.loads\<close> is the parameter \<open>json_loads\<close>: the decoded value, or \<open>None\<close> when it
  raises \<open>JSONDecodeError\<close>.
\<close>

definition parse_jsonp_response :: "(pystr \<Rightarrow> 'j option) \<Rightarrow> pystr \<Rightarrow> jsonp_error + 'j" where
  "parse_jsonp_response json_loads response_text =
     (case find_char LBRACE response_text of
        None \<Rightarrow> Inl (JSONPParseError NoStart)
      | Some start_idx \<Rightarrow>
          (case scan_braces (drop start_idx response_text) 0 start_idx of
             None \<Rightarrow> Inl (JSONPParseError NoEnd)
           | Some i \<Rightarrow>
               (case json_loads (slice response_text start_idx (i + 1)) of
                  None \<Rightarrow> Inl (JSONPParseError DecodeFailed)
                | Some v \<Rightarrow> Inr v)))"

text \<open>
  The nesting depth a text leaves behind: opening braces minus closing braces.
\<close>

fun balance :: "pystr \<Rightarrow> int" where
  "balance [] = 0"
| "balance (c # cs) = (if c = LBRACE then 1 else if c = RBRACE then - 1 else 0) + balance cs"

text \<open>
  A text that runs from an opening brace to its matching top-level closing brace: it
  starts with \<open>{\<close>, the depth is back at \<open>0\<close> at its end, and at no earlier point.
\<close>

definition top_level_object :: "pystr \<Rightarrow> bool" where
  "top_level_object js =
     (js \<noteq> [] \<and> hd js = LBRACE \<and> balance js = 0 \<and>
      list_all (\<lambda>k. balance (take k js) \<noteq> 0) [1 ..< length js])"

text \<open>A text in which the brace opened first is never closed.\<close>

definition never_closed :: "pystr \<Rightarrow> bool" where
  "never_closed rest = list_all (\<lambda>k. balance (take k rest) \<noteq> 0) [1 ..< Suc (length rest)]"

section \<open>Python string methods\<close>

text \<open>
  \<open>str.strip()\<close> removes the code points for which \<open>str.isspace\<close> holds from both
  ends. These are all of them.
\<close>

definition py_isspace :: "nat \<Rightarrow> bool" where
  "py_isspace c =
     ((9 \<le> c \<and> c \<le> 13) \<or> (28 \<le> c \<and> c \<le> 32) \<or> c = 133 \<or> c = 160 \<or> c = 5760 \<or>
      (8192 \<le> c \<and> c \<le> 8202) \<or> c = 8232 \<or> c = 8233 \<or> c = 8239 \<or> c = 8287 \<or> c = 12288)"

definition py_strip :: "pystr \<Rightarrow> pystr" where
  "py_strip s = rev (dropWhile py_isspace (rev (dropWhile py_isspace s)))"

text \<open>
  Case mapping and digit classes are tables of the Unicode database behind the Python
  runtime. For ASCII, for the CJK unified ideographs U+4E00 to U+9FFF and for the
  full-width comma U+FF0C (the code points of every literal in the sources) they are
  written out: only \<open>A\<close> to \<open>Z\<close> have a lower case, only \<open>0\<close> to \<open>9\<close> are digits. For all
  other code points they are parameters: \<open>lower_other\<close> is \<open>str.lower\<close> on a string with
  such a code point, \<open>digit_other\<close> tells whether such a code point is a decimal digit
  (\<open>int\<close> and \<open>\d\<close> accept it; with its value), a digit that is not decimal (\<open>str.isdigit\<close>
  holds, \<open>int\<close> raises \<open>ValueError\<close>, as for a superscript two), or no digit.
  The interpreter also limits the number of digits \<open>int\<close> converts; the limit can be
  configured, but not below 640: \<open>int_refuses\<close> tells, for a string of more than 640
  decimal digits, whether \<open>int\<close> raises \<open>ValueError\<close> on it.
\<close>

datatype digit_class = NotDigit | Decimal nat | OtherDigit

record unicode_tables =
  lower_other :: "pystr \<Rightarrow> pystr"
  digit_other :: "nat \<Rightarrow> digit_class"
  int_refuses :: "pystr \<Rightarrow> bool"

definition plain_cp :: "nat \<Rightarrow> bool" where
  "plain_cp c = (c < 128 \<or> (19968 \<le> c \<and> c \<le> 40959) \<or> c = 65292)"

definition ascii_lower :: "nat \<Rightarrow> nat" where
  "ascii_lower c = (if 65 \<le> c \<and> c \<le> 90 then c + 32 else c)"

definition py_lower :: "unicode_tables \<Rightarrow> pystr \<Rightarrow> pystr" where
  "py_lower U s = (if list_all plain_cp s then map ascii_lower s else lower_other U s)"

definition digit_class_of :: "unicode_tables \<Rightarrow> nat \<Rightarrow> digit_class" where
  "digit_class_of U c =
     (if 48 \<le> c \<and> c \<le> 57 then Decimal (c - 48)
      else if plain_cp c then NotDigit
      else digit_other U c)"

text \<open>\<open>str.isdigit\<close>: not empty, and every code point a digit.\<close>

definition py_isdigit :: "unicode_tables \<Rightarrow> pystr \<Rightarrow> bool" where
  "py_isdigit U s = (s \<noteq> [] \<and> list_all (\<lambda>c. digit_class_of U c \<noteq> NotDigit) s)"

text \<open>
  \<open>int(s)\<close> for a string for which \<open>isdigit\<close> holds: its value when every digit is
  decimal and the digits are not too many, \<open>None\<close> for \<open>ValueError\<close>.
\<close>

fun decimal_value :: "unicode_tables \<Rightarrow> pystr \<Rightarrow> int \<Rightarrow> int option" where
  "decimal_value U [] acc = Some acc"
| "decimal_value U (c # cs) acc =
     (case digit_class_of U c of
        Decimal d \<Rightarrow> decimal_value U cs (10 * acc + int d)
      | _ \<Rightarrow> None)"

definition py_int :: "unicode_tables \<Rightarrow> pystr \<Rightarrow> int option" where
  "py_int U s =
     (case decimal_value U s 0 of
        None \<Rightarrow> None
      | Some v \<Rightarrow> if 640 < length s \<and> int_refuses U s then None else Some v)"

text \<open>\<open>str.split(sep)\<close> for a separator of one code point.\<close>

fun py_split :: "nat \<Rightarrow> pystr \<Rightarrow> pystr list" where
  "py_split sep [] = [[]]"
| "py_split sep (c # cs) =
     (if c = sep then [] # py_split sep cs
      else (case py_split sep cs of
              [] \<Rightarrow> [[c]]
            | part # parts \<Rightarrow> (c # part) # parts))"

text \<open>
  \<open>str.replace(old, new)\<close>: the occurrences of \<open>old\<close> from left to right, not
  overlapping; an empty \<open>old\<close> matches before every code point and at the end.
\<close>

function replace_from :: "pystr \<Rightarrow> pystr \<Rightarrow> pystr \<Rightarrow> pystr" where
  "replace_from old new [] = []"
| "replace_from old new (c # cs) =
     (if old \<noteq> [] \<and> prefix old (c # cs)
      then new @ replace_from old new (drop (length old) (c # cs))
      else c # replace_from old new cs)"
  by pat_completeness auto

termination
  by (relation "measure (\<lambda>(old, new, s). length s)") auto

definition py_replace :: "pystr \<Rightarrow> pystr \<Rightarrow> pystr \<Rightarrow> pystr" where
  "py_replace old new s =
     (if old = [] then new @ concat (map (\<lambda>c. c # new) s) else replace_from old new s)"

text \<open>Tables that know no code point beyond the ones written out, for the examples.\<close>

definition plain_tables :: unicode_tables where
  "plain_tables =
     \<lparr> lower_other = (\<lambda>s. s), digit_other = (\<lambda>c. NotDigit), int_refuses = (\<lambda>s. False) \<rparr>"

section \<open>The selection parsers\<close>

text \<open>The Chinese literals: keep all, all, delete all, cancel; the full-width comma.\<close>

definition QUANBU_BAOLIU :: pystr where
  "QUANBU_BAOLIU = [20840, 37096, 20445, 30041]"

definition QUANBU :: pystr where
  "QUANBU = [20840, 37096]"

definition QUANBU_SHANCHU :: pystr where
  "QUANBU_SHANCHU = [20840, 37096, 21024, 38500]"

definition QUXIAO :: pystr where
  "QUXIAO = [21462, 28040]"

definition FULLWIDTH_COMMA :: nat where
  "FULLWIDTH_COMMA = 65292"

definition COMMA :: nat where
  "COMMA = 44"

subsection \<open>EastmoneyFeishuBot.process\_user\_selection (feishu/eastmoney\_bot.py)\<close>

text \<open>
  The \<open>for\<close> loop over the parts, \<open>indices\<close> being the list built so far; \<open>None\<close> when
  \<open>int\<close> raises, which the \<open>except\<close> clause of the caller turns into the empty selection.
\<close>

fun collect_indices :: "unicode_tables \<Rightarrow> nat \<Rightarrow> pystr list \<Rightarrow> nat list \<Rightarrow> nat list option" where
  "collect_indices U n [] indices = Some indices"
| "collect_indices U n (part # parts) indices =
     (let part' = py_strip part in
      if py_isdigit U part' then
        (case py_int U part' of
           None \<Rightarrow> None
         | Some v \<Rightarrow>
             (let idx = v - 1 in
              if 0 \<le> idx \<and> idx < int n
              then collect_indices U n parts (indices @ [nat idx])
              else collect_indices U n parts indices))
      else collect_indices U n parts indices)"

definition process_user_selection :: "unicode_tables \<Rightarrow> pystr \<Rightarrow> 'a list \<Rightarrow> 'a list" where
  "process_user_selection U selection_text all_infocodes =
     (let selection_text = py_lower U (py_strip selection_text) in
      if selection_text = QUANBU_BAOLIU \<or> selection_text = cps ''all'' then all_infocodes
      else if selection_text = QUANBU_SHANCHU \<or> selection_text = cps ''all delete''
              \<or> selection_text = cps ''delete all'' then []
      else if selection_text = QUXIAO \<or> selection_text = cps ''cancel'' then []
      else
        (case collect_indices U (length all_infocodes)
                (py_split COMMA (py_replace [FULLWIDTH_COMMA] [COMMA] selection_text)) [] of
           None \<Rightarrow> []
         | Some indices \<Rightarrow> map (\<lambda>i. all_infocodes ! i) indices))"

subsection \<open>TimedFeishuListener.parse\_user\_selection (timed\_listener.py)\<close>

datatype selection = KeepAll | DeleteAll | Numbers "int list"

text \<open>\<open>re.findall(r'\d+', text)\<close>: the maximal runs of decimal digits, \<open>run\<close> the one open.\<close>

definition is_decimal :: "unicode_tables \<Rightarrow> nat \<Rightarrow> bool" where
  "is_decimal U c = (case digit_class_of U c of Decimal d \<Rightarrow> True | _ \<Rightarrow> False)"

fun digit_runs :: "unicode_tables \<Rightarrow> pystr \<Rightarrow> pystr \<Rightarrow> pystr list" where
  "digit_runs U [] run = (if run = [] then [] else [run])"
| "digit_runs U (c # cs) run =
     (if is_decimal U c then digit_runs U cs (run @ [c])
      else (if run = [] then [] else [run]) @ digit_runs U cs [])"

text \<open>\<open>[int(n) for n in numbers]\<close>; \<open>None\<close> when an \<open>int\<close> raises.\<close>

fun ints_of :: "unicode_tables \<Rightarrow> pystr list \<Rightarrow> int list option" where
  "ints_of U [] = Some []"
| "ints_of U (n # numbers) =
     (case py_int U n of
        None \<Rightarrow> None
      | Some v \<Rightarrow> map_option (Cons v) (ints_of U numbers))"

text \<open>
  The function returns what it has parsed, \<open>None\<close> for no selection; the \<open>ValueError\<close>
  of an \<open>int\<close> is not caught in it.
\<close>

datatype parse_outcome = Returns "selection option" | RaisesValueError

definition parse_user_selection :: "unicode_tables \<Rightarrow> pystr \<Rightarrow> parse_outcome" where
  "parse_user_selection U text =
     (let text = py_lower U (py_strip text) in
      if text \<in> set [QUANBU_BAOLIU, cps ''all'', QUANBU] then Returns (Some KeepAll)
      else if text \<in> set [QUANBU_SHANCHU, cps ''delete'', cps ''delete all'']
      then Returns (Some DeleteAll)
      else
        (let numbers = digit_runs U text [] in
         if numbers \<noteq> [] then
           (case ints_of U numbers of
              None \<Rightarrow> RaisesValueError
            | Some idxs \<Rightarrow> Returns (Some (Numbers idxs)))
         else Returns None))"

text \<open>
  How \<open>listen_and_process\<close> turns the parsed selection into identifiers (\<open>reports\<close> being
  the offered list).
\<close>

fun infocodes_of_selection :: "selection \<Rightarrow> 'a list \<Rightarrow> 'a list" where
  "infocodes_of_selection KeepAll reports = reports"
| "infocodes_of_selection DeleteAll reports = []"
| "infocodes_of_selection (Numbers idxs) reports =
     map (\<lambda>idx. reports ! nat (idx - 1)) (filter (\<lambda>idx. 1 \<le> idx \<and> idx \<le> int (length reports)) idxs)"

subsection \<open>The grammar in the words of the specification\<close>

text \<open>
  Following the specification: the reply, trimmed and lowered, is split on ASCII and
  full-width commas; the tokens, trimmed, that are numbers are kept; each is read as a
  1-based index; the indices outside \<open>[1, n]\<close> are dropped. (Dropping duplicates is not
  part of these definitions.)
\<close>

fun split_commas :: "pystr \<Rightarrow> pystr list" where
  "split_commas [] = [[]]"
| "split_commas (c # cs) =
     (if c = COMMA \<or> c = FULLWIDTH_COMMA then [] # split_commas cs
      else (case split_commas cs of
              [] \<Rightarrow> [[c]]
            | part # parts \<Rightarrow> (c # part) # parts))"

definition number_tokens :: "unicode_tables \<Rightarrow> pystr \<Rightarrow> pystr list" where
  "number_tokens U t = filter (py_isdigit U) (map py_strip (split_commas t))"

definition chosen_indices :: "unicode_tables \<Rightarrow> nat \<Rightarrow> pystr \<Rightarrow> int list" where
  "chosen_indices U n t =
     filter (\<lambda>v. 1 \<le> v \<and> v \<le> int n) (map (\<lambda>tok. the (py_int U tok)) (number_tokens U t))"

text \<open>The literal commands of \<open>process_user_selection\<close>.\<close>

definition is_command :: "pystr \<Rightarrow> bool" where
  "is_command t = (t \<in> set [QUANBU_BAOLIU, cps ''all'', QUANBU_SHANCHU, cps ''all delete'',
                             cps ''delete all'', QUXIAO, cps ''cancel''])"

section \<open>The retention resolver (EastmoneyPdfStorage.move\_to\_target)\<close>

text \<open>
  The two directories: the regular files of the holding directory \<open>pdf_save_dir\<close> and of
  the target directory \<open>target_dir\<close>, by name, with their contents.
\<close>

record dirs =
  holding :: "pystr \<rightharpoonup> bytes"
  target :: "pystr \<rightharpoonup> bytes"

text \<open>
  The operating system, as far as the resolver meets it. \<open>makedirs_ok\<close> tells whether
  \<open>os.makedirs(target_dir, exist_ok=True)\<close> returns: it raises \<open>OSError\<close> where the
  directory cannot be created. \<open>listdir\<close> is the list \<open>os.listdir\<close> returns for the
  holding directory, in its order, and \<open>None\<close> where it raises \<open>OSError\<close> (the directory
  does not exist, or may not be read). \<open>locked\<close> holds the names of the holding
  directory on which \<open>os.remove\<close> raises \<open>OSError\<close> (a file held open, an immutable
  file); \<open>unmovable\<close> holds those on which \<open>os.rename\<close> into the target directory raises
  \<open>OSError\<close> (the same, or a target directory that may not be written, or one on another
  device); \<open>target_locked\<close> holds the names of the target directory on which
  \<open>os.remove\<close> raises \<open>OSError\<close>. \<open>rename_replaces\<close> tells whether \<open>os.rename\<close> onto
  an existing file replaces it (POSIX) or raises \<open>FileExistsError\<close> (Windows).
\<close>

record os_env =
  makedirs_ok :: bool
  listdir :: "(pystr \<rightharpoonup> bytes) \<Rightarrow> pystr list option"
  locked :: "pystr set"
  unmovable :: "pystr set"
  target_locked :: "pystr set"
  rename_replaces :: bool

datatype os_error = FileExistsError | OSError

definition os_rename :: "os_env \<Rightarrow> dirs \<Rightarrow> pystr \<Rightarrow> pystr \<Rightarrow> os_error + dirs" where
  "os_rename env fs src dst =
     (case holding fs src of
        None \<Rightarrow> Inl OSError
      | Some content \<Rightarrow>
          if src \<in> unmovable env then Inl OSError
          else if target fs dst \<noteq> None \<and> \<not> rename_replaces env then Inl FileExistsError
          else Inr (fs\<lparr> holding := (holding fs)(src := None),
                         target := (target fs)(dst \<mapsto> content) \<rparr>))"

definition os_remove_holding :: "os_env \<Rightarrow> dirs \<Rightarrow> pystr \<Rightarrow> os_error + dirs" where
  "os_remove_holding env fs name =
     (if holding fs name = None \<or> name \<in> locked env then Inl OSError
      else Inr (fs\<lparr> holding := (holding fs)(name := None) \<rparr>))"

definition os_remove_target :: "os_env \<Rightarrow> dirs \<Rightarrow> pystr \<Rightarrow> os_error + dirs" where
  "os_remove_target env fs name =
     (if target fs name = None \<or> name \<in> target_locked env then Inl OSError
      else Inr (fs\<lparr> target := (target fs)(name := None) \<rparr>))"

definition DOT_PDF :: pystr where
  "DOT_PDF = cps ''.pdf''"

definition TARGET_PDF_DIR :: pystr where
  "TARGET_PDF_DIR = cps ''/Users/echochen/Library/Mobile Documents/com~apple~CloudDocs/''
     @ [23478, 20154, 20849, 20139] @ cps ''/'' @ [24453, 36873, 25253, 21578]"

text \<open>\<open>filename.endswith(".pdf")\<close> and \<open>filename.replace(".pdf", "")\<close>.\<close>

definition endswith_pdf :: "pystr \<Rightarrow> bool" where
  "endswith_pdf filename = suffix DOT_PDF filename"

definition infocode_of :: "pystr \<Rightarrow> pystr" where
  "infocode_of filename = py_replace DOT_PDF [] filename"

text \<open>
  One round of the \<open>for\<close> loop, on the directories and the \<open>result\<close> dictionary. An
  exception that leaves the round leaves \<open>move_to_target\<close>, with the directories as
  they are at that moment.
\<close>

type_synonym move_outcome = "os_error \<times> dirs + dirs \<times> (pystr \<rightharpoonup> pystr)"

definition move_one ::
  "os_env \<Rightarrow> pystr list \<Rightarrow> pystr \<Rightarrow> dirs \<times> (pystr \<rightharpoonup> pystr) \<Rightarrow> move_outcome" where
  "move_one env infocodes filename st =
     (let fs = fst st; result = snd st; infocode = infocode_of filename in
      if infocode \<in> set infocodes then
        (let target_name = infocode @ DOT_PDF;
             target_path = os_path_join TARGET_PDF_DIR target_name
         in case os_rename env fs filename target_name of
              Inr fs' \<Rightarrow> Inr (fs', result(infocode \<mapsto> target_path))
            | Inl FileExistsError \<Rightarrow>
                (case os_remove_target env fs target_name of
                   Inl e \<Rightarrow> Inl (e, fs)
                 | Inr fs1 \<Rightarrow>
                     (case os_rename env fs1 filename target_name of
                        Inl e \<Rightarrow> Inl (e, fs1)
                      | Inr fs2 \<Rightarrow> Inr (fs2, result(infocode \<mapsto> target_path))))
            | Inl OSError \<Rightarrow> Inl (OSError, fs))
      else
        (case os_remove_holding env fs filename of
           Inr fs' \<Rightarrow> Inr (fs', result)
         | Inl e \<Rightarrow> Inr (fs, result)))"

fun move_loop ::
  "os_env \<Rightarrow> pystr list \<Rightarrow> pystr list \<Rightarrow> dirs \<times> (pystr \<rightharpoonup> pystr) \<Rightarrow> move_outcome" where
  "move_loop env infocodes [] st = Inr st"
| "move_loop env infocodes (filename # all_files) st =
     (case move_one env infocodes filename st of
        Inl e \<Rightarrow> Inl e
      | Inr st' \<Rightarrow> move_loop env infocodes all_files st')"

text \<open>
  \<open>move_to_target\<close>: \<open>_ensure_dir(target_dir)\<close>, the listing of the holding directory,
  the loop. An \<open>OSError\<close> of \<open>os.makedirs\<close> or of \<open>os.listdir\<close> leaves the method before
  any file has been looked at.
\<close>

definition move_to_target :: "os_env \<Rightarrow> pystr list \<Rightarrow> dirs \<Rightarrow> move_outcome" where
  "move_to_target env infocodes fs =
     (if \<not> makedirs_ok env then Inl (OSError, fs)
      else case listdir env (holding fs) of
             None \<Rightarrow> Inl (OSError, fs)
           | Some names \<Rightarrow>
               move_loop env infocodes (filter endswith_pdf names) (fs, Map.empty))"

text \<open>\<open>os.listdir\<close> returns, and lists the holding directory: every name once.\<close>

definition lists_holding :: "os_env \<Rightarrow> dirs \<Rightarrow> bool" where
  "lists_holding env fs =
     (case listdir env (holding fs) of
        None \<Rightarrow> False
      | Some names \<Rightarrow> distinct names \<and> set names = dom (holding fs))"

text \<open>Where a name is after a call: its content in the holding and in the target directory.\<close>

definition final_dirs :: "move_outcome \<Rightarrow> dirs" where
  "final_dirs r = (case r of Inl (e, fs) \<Rightarrow> fs | Inr (fs, result) \<Rightarrow> fs)"

definition placement :: "dirs \<Rightarrow> pystr \<Rightarrow> bytes option \<times> bytes option" where
  "placement fs name = (holding fs name, target fs name)"

text \<open>
  An operating system that creates the target directory, with the given listing of the
  holding directory and the given names of it that can be neither removed nor moved,
  POSIX or not.
\<close>

definition os_with :: "pystr list \<Rightarrow> pystr list \<Rightarrow> bool \<Rightarrow> os_env" where
  "os_with names locked_names posix =
     \<lparr> makedirs_ok = True, listdir = (\<lambda>h. Some names), locked = set locked_names,
       unmovable = set locked_names, target_locked = {}, rename_replaces = posix \<rparr>"

text \<open>One in which the target directory cannot be created.\<close>

definition os_without_target :: "pystr list \<Rightarrow> os_env" where
  "os_without_target names = (os_with names [] True)\<lparr> makedirs_ok := False \<rparr>"

section \<open>Reading a name in a function body\<close>

text \<open>
  Python decides at compile time where a name read in a function lives. A name that
  the body binds anywhere (by an assignment, a \<open>for\<close>, an \<open>except ... as\<close>, an \<open>import\<close>
  statement) is a local of the whole function, and reading it before a binding has been
  executed raises \<open>UnboundLocalError\<close>, whatever the module defines under that name. Any
  other name is looked up among the globals of the module and then the builtins, and
  raises \<open>NameError\<close> when it is in neither. \<open>local_names\<close> are the names the body
  binds, \<open>bound\<close> those bound when the line is reached, \<open>global_names\<close> the names of the
  module and of the builtins.
\<close>

datatype py_exception = NameError | UnboundLocalError | OtherException

definition load_name :: "pystr list \<Rightarrow> pystr list \<Rightarrow> pystr list \<Rightarrow> pystr \<Rightarrow> py_exception option" where
  "load_name local_names bound global_names name =
     (if name \<in> set local_names
      then (if name \<in> set bound then None else Some UnboundLocalError)
      else if name \<in> set global_names then None else Some NameError)"

section \<open>From the notification to the resolver\<close>

text \<open>
  The names of feishu/eastmoney\_bot.py: what the module binds at top level, what the
  body of \<open>send_report_list\<close> binds (its parameters, its assignments, the names the two
  \<open>from ... import\<close> statements list), and which of these are bound whenever line
  214 is reached. The builtins have no name that begins with \<open>mcp\<close>.
\<close>

definition eastmoney_bot_globals :: "pystr list" where
  "eastmoney_bot_globals =
     map cps [''asyncio'', ''List'', ''Dict'', ''Optional'', ''datetime'', ''utils'',
              ''eastmoney_config'', ''EastmoneyFeishuBot'', ''send_and_notify_reports'']"

definition mcp_imported_names :: "pystr list" where
  "mcp_imported_names =
     map cps [''MessageParams'', ''MessageContent'', ''MessageCard'', ''Card'',
              ''CardElement'', ''CardHeader'', ''ModuleSection'', ''MarkdownElement'',
              ''TextTag'', ''MessageConfig'']"

definition send_report_list_locals :: "pystr list" where
  "send_report_list_locals =
     map cps [''self'', ''reports'', ''message_text'', ''mcp_available''] @ mcp_imported_names @
     map cps [''elements'', ''i'', ''report'', ''org_name'', ''title'', ''pages'', ''infocode'',
              ''text'', ''card'', ''content'', ''params'', ''result'', ''e'']"

definition send_report_list_bound_214 :: "pystr list" where
  "send_report_list_bound_214 =
     map cps [''self'', ''reports'', ''message_text'', ''mcp_available''] @ mcp_imported_names @
     map cps [''elements'', ''card'', ''content'', ''params'']"

text \<open>The name called at line 214: that of the module the imports read from.\<close>

definition MCP_MESSAGE_CREATE :: pystr where
  "MCP_MESSAGE_CREATE = cps ''mcp__lark_mcp__im_v1_message_create''"

text \<open>
  The messaging side, as far as \<open>send_report_list\<close> depends on it: whether
  \<open>FEISHU_CHAT_ID\<close> is configured; whether the two import statements succeed (they raise
  \<open>ImportError\<close> otherwise, which is caught); whether the card and the parameters of
  lines 158 to 211 are built without an exception; and whether the call of the tool,
  once its name is resolved, returns. Every exception from line 158 on is caught by the
  \<open>except Exception\<close> of line 219, and the method then returns \<open>False\<close>. Formatting
  the message text (lines 132 to 135) is taken to raise nothing.
\<close>

record feishu_env =
  chat_id_configured :: bool
  mcp_available :: bool
  card_built :: bool
  create_message_ok :: bool

definition send_report_list :: "feishu_env \<Rightarrow> 'r list \<Rightarrow> bool" where
  "send_report_list fe reports =
     (if \<not> chat_id_configured fe then False
      else if \<not> mcp_available fe then False
      else if \<not> card_built fe then False
      else (case load_name send_report_list_locals send_report_list_bound_214
                   eastmoney_bot_globals MCP_MESSAGE_CREATE of
              Some exn \<Rightarrow> False
            | None \<Rightarrow> create_message_ok fe))"

text \<open>\<open>send_and_notify_reports\<close>: \<open>None\<close> when sending fails, else the empty list.\<close>

definition send_and_notify_reports :: "feishu_env \<Rightarrow> 'r list \<Rightarrow> pystr list option" where
  "send_and_notify_reports fe reports =
     (if \<not> send_report_list fe reports then None else Some [])"

definition SEND_LIST_TO_FEISHU :: bool where
  "SEND_LIST_TO_FEISHU = True"

definition DELETE_UNSELECTED :: bool where
  "DELETE_UNSELECTED = True"

text \<open>
  \<open>manual_crawl\<close> after \<open>crawler.start\<close> has returned \<open>new_reports\<close>, on the
  directories the downloads have left: the directories when it ends. An exception of
  the resolver ends the program, with the directories as they are at that moment.
\<close>

definition manual_crawl_resolve :: "os_env \<Rightarrow> feishu_env \<Rightarrow> 'r list \<Rightarrow> dirs \<Rightarrow> dirs" where
  "manual_crawl_resolve env fe new_reports fs =
     (if new_reports \<noteq> [] \<and> SEND_LIST_TO_FEISHU then
        (case send_and_notify_reports fe new_reports of
           None \<Rightarrow> fs
         | Some selected_infocodes \<Rightarrow>
             if DELETE_UNSELECTED then final_dirs (move_to_target env selected_infocodes fs)
             else fs)
      else fs)"

text \<open>
  The same part of \<open>crawl_eastmoney_reports\<close> (scheduler/eastmoney\_scheduler.py), and
  \<open>scheduled_crawl_job\<close> on the path on which its wait of 15 minutes ends: it then
  calls \<open>move_to_target([])\<close>. In both, an exception of the resolver is caught and
  logged.
\<close>

definition crawl_eastmoney_reports_resolve :: "os_env \<Rightarrow> feishu_env \<Rightarrow> 'r list \<Rightarrow> dirs \<Rightarrow> dirs" where
  "crawl_eastmoney_reports_resolve env fe new_reports fs =
     (if new_reports \<noteq> [] \<and> SEND_LIST_TO_FEISHU then
        (case send_and_notify_reports fe new_reports of
           None \<Rightarrow> fs
         | Some selected_infocodes \<Rightarrow> final_dirs (move_to_target env selected_infocodes fs))
      else fs)"

definition scheduled_crawl_job_resolve :: "os_env \<Rightarrow> feishu_env \<Rightarrow> 'r list \<Rightarrow> dirs \<Rightarrow> dirs" where
  "scheduled_crawl_job_resolve env fe new_reports fs =
     final_dirs (move_to_target env [] (crawl_eastmoney_reports_resolve env fe new_reports fs))"

text \<open>
  Directories and messaging sides for the examples: one with no chat configured, and
  one in which the chat is configured, the imports succeed and the tool would answer.
\<close>

definition example_dirs :: "pystr \<Rightarrow> dirs" where
  "example_dirs name = \<lparr> holding = [name \<mapsto> cps ''%PDF''], target = Map.empty \<rparr>"

definition example_two_dirs :: dirs where
  "example_two_dirs =
     \<lparr> holding = [cps ''AP1.pdf'' \<mapsto> cps ''new'', cps ''AP2.pdf'' \<mapsto> cps ''other''],
       target = [cps ''AP1.pdf'' \<mapsto> cps ''old''] \<rparr>"

definition feishu_unconfigured :: feishu_env where
  "feishu_unconfigured =
     \<lparr> chat_id_configured = False, mcp_available = False, card_built = False,
       create_message_ok = False \<rparr>"

definition feishu_configured :: feishu_env where
  "feishu_configured =
     \<lparr> chat_id_configured = True, mcp_available = True, card_built = True,
       create_message_ok = True \<rparr>"

section \<open>The timed listener (listen\_and\_process of timed\_listener.py)\<close>

text \<open>
  The names of timed\_listener.py: what the module binds at top level, what the body of
  \<open>listen_and_process\<close> binds anywhere, with its parameter (the names bound inside the
  nested \<open>process_and_notify\<close> are its own), and which of these are bound when line 210
  is reached. The body holds \<open>import time\<close> at line 265, so that \<open>time\<close> is one of its
  locals.
\<close>

definition timed_listener_globals :: "pystr list" where
  "timed_listener_globals =
     map cps [''asyncio'', ''json'', ''os'', ''re'', ''time'', ''datetime'', ''requests'',
              ''TimedFeishuListener'', ''listen_and_process'']"

definition listen_and_process_locals :: "pystr list" where
  "listen_and_process_locals =
     map cps [''timeout_minutes'', ''sys'', ''listener'', ''e'', ''remaining_time'',
              ''last_check_time'', ''check_interval'', ''last_message_id'', ''elapsed'',
              ''latest_msg'', ''msg_id'', ''msg_time'', ''sender_id'', ''msg_content'',
              ''content_dict'', ''text'', ''selection'', ''config'', ''time'', ''select'',
              ''get_session'', ''EastmoneyReport'', ''EastmoneyCrawler'',
              ''process_and_notify'', ''kept'', ''total'', ''mins_left'', ''secs_left'',
              ''traceback'', ''EastmoneyPdfStorage'', ''storage'', ''result'']"

definition listen_and_process_bound_210 :: "pystr list" where
  "listen_and_process_bound_210 =
     map cps [''timeout_minutes'', ''sys'', ''listener'', ''remaining_time'']"

text \<open>
  What \<open>listen_and_process\<close> meets before its loop: whether the constructor of
  \<open>TimedFeishuListener\<close> returns (it reads the configuration file and refreshes the
  token, under no \<open>try\<close>), and whether \<open>get_user_chat_id\<close> returns (its exception is
  caught, and the function returns).
\<close>

record listener_env =
  listener_created :: bool
  chat_id_fetched :: bool

text \<open>
  \<open>listen_and_process\<close> up to line 210, which reads \<open>time\<close> for the first time, under
  no \<open>try\<close>; \<open>remainder\<close> stands for all that follows it (the start notification, the
  loop, the handling of the timeout). The result is the exception raised, if any, and
  the directories.
\<close>

type_synonym listen_outcome = "py_exception \<times> dirs + dirs"

definition listen_and_process ::
  "listener_env \<Rightarrow> (dirs \<Rightarrow> listen_outcome) \<Rightarrow> dirs \<Rightarrow> listen_outcome" where
  "listen_and_process lenv remainder fs =
     (if \<not> listener_created lenv then Inl (OtherException, fs)
      else if \<not> chat_id_fetched lenv then Inr fs
      else (case load_name listen_and_process_locals listen_and_process_bound_210
                   timed_listener_globals (cps ''time'') of
              Some exn \<Rightarrow> Inl (exn, fs)
            | None \<Rightarrow> remainder fs))"

section \<open>Properties of the store\<close>

lemma apply_update_data_infocode [simp]:
  "infocode (apply_update_data t item r) = infocode r"
  by (simp add: apply_update_data_def)

lemma rows_for_update:
  "rows_for (update_report t item tbl) ic =
     map (\<lambda>r. if Some ic = ci_infocode item then apply_update_data t item r else r)
       (rows_for tbl ic)"
  unfolding rows_for_def update_report_def
  by (induction tbl) auto

text \<open>
  C10. When the identifier of a content item is missing (the key is absent) or empty,
  \<open>store_content\<close> returns normally, whether or not a session could be opened, and the
  table it leaves is the table it found: no row inserted, none updated.
\<close>

theorem store_content_no_infocode_noop:
  "ci_infocode item = None \<or> ci_infocode item = Some [] \<Longrightarrow>
   store_content session_ok current_time item tbl = Inr tbl"
  by (auto simp: store_content_def)

theorem store_content_no_infocode_noop_witness:
  "ci_infocode (blank_item\<lparr>ci_report_title := Some (cps ''t'')\<rparr>) = None \<and>
   store_content False 7 (blank_item\<lparr>ci_report_title := Some (cps ''t'')\<rparr>) [] = Inr [] \<and>
   store_content True 7 (blank_item\<lparr>ci_infocode := Some []\<rparr>) [] = Inr []"
  using store_content_no_infocode_noop [of "blank_item\<lparr>ci_report_title := Some (cps ''t'')\<rparr>" False 7 "[]"]
    store_content_no_infocode_noop [of "blank_item\<lparr>ci_infocode := Some []\<rparr>" True 7 "[]"]
  by (simp add: blank_item_def)

text \<open>
  C8. Let an item carry a non-empty identifier that has no row yet, and let the clock
  not run backwards between two calls of \<open>store_content\<close> with that same item. Both
  calls return. The first appends one row \<open>r1\<close> whose status is the supplied one,
  \<open>Pending\<close> when none is supplied, and whose two timestamps are the time of the call.
  The second appends nothing: it leaves the same row with only \<open>update_time\<close> moved to
  the time of the second call, so the identifier has exactly one row after each call and
  \<open>update_time\<close> does not decrease.
\<close>

theorem store_content_twice:
  assumes ic: "ci_infocode item = Some ic" "ic \<noteq> []"
      and absent: "rows_for tbl ic = []"
      and clock: "t1 \<le> t2"
  shows "\<exists>r1 r2.
           store_content True t1 item tbl = Inr (tbl @ [r1]) \<and>
           store_content True t2 item (tbl @ [r1]) = Inr (tbl @ [r2]) \<and>
           rows_for (tbl @ [r1]) ic = [r1] \<and>
           rows_for (tbl @ [r2]) ic = [r2] \<and>
           download_status r1 = get_or Pending (ci_download_status item) \<and>
           create_time r1 = t1 \<and> update_time r1 = t1 \<and>
           r2 = r1\<lparr>update_time := t2\<rparr> \<and>
           update_time r1 \<le> update_time r2"
proof -
  define r1 where "r1 = last (add_report t1 item tbl)"
  have add: "add_report t1 item tbl = tbl @ [r1]"
    by (simp add: r1_def add_report_def)
  have r1_ic: "infocode r1 = Some ic"
    using ic by (simp add: r1_def add_report_def)
  have notin: "\<forall>r \<in> set tbl. infocode r \<noteq> Some ic"
    using absent by (simp add: rows_for_def filter_empty_conv)
  have first: "store_content True t1 item tbl = Inr (tbl @ [r1])"
    using ic absent add by (simp add: store_content_def report_is_exist_def rows_for_def)
  define r2 where "r2 = apply_update_data t2 item r1"
  have keep: "map (\<lambda>r. if infocode r = Some ic then apply_update_data t2 item r else r) tbl = tbl"
    using notin by (intro map_idI) simp
  have upd: "update_report t2 item (tbl @ [r1]) = tbl @ [r2]"
    using keep r1_ic ic by (simp add: update_report_def r2_def)
  have second: "store_content True t2 item (tbl @ [r1]) = Inr (tbl @ [r2])"
    using ic r1_ic upd by (simp add: store_content_def report_is_exist_def)
  have r2_eq: "r2 = r1\<lparr>update_time := t2\<rparr>"
    by (simp add: r2_def r1_def add_report_def apply_update_data_def get_or_def
        split: option.splits)
  have "rows_for (tbl @ [r1]) ic = [r1]" "rows_for (tbl @ [r2]) ic = [r2]"
    using absent r1_ic by (simp_all add: rows_for_def r2_eq)
  moreover have "download_status r1 = get_or Pending (ci_download_status item)"
    "create_time r1 = t1" "update_time r1 = t1"
    by (simp_all add: r1_def add_report_def)
  ultimately show ?thesis
    using first second r2_eq clock by auto
qed

theorem store_content_twice_witness:
  "rows_for [] (cps ''AP1'') = [] \<and> (100::int) \<le> 200 \<and>
   (\<exists>r1 r2.
      store_content True 100 (blank_item\<lparr>ci_infocode := Some (cps ''AP1'')\<rparr>) [] = Inr [r1] \<and>
      store_content True 200 (blank_item\<lparr>ci_infocode := Some (cps ''AP1'')\<rparr>) [r1] = Inr [r2] \<and>
      rows_for [r2] (cps ''AP1'') = [r2] \<and>
      download_status r1 = Pending \<and> download_status r2 = Pending \<and>
      create_time r2 = 100 \<and> update_time r1 = 100 \<and> update_time r2 = 200)"
proof -
  have h: "ci_infocode (blank_item\<lparr>ci_infocode := Some (cps ''AP1'')\<rparr>) = Some (cps ''AP1'')"
    "cps ''AP1'' \<noteq> []" "rows_for [] (cps ''AP1'') = []" "(100::int) \<le> 200"
    by (simp_all add: cps_def rows_for_def)
  from store_content_twice [OF h] obtain r1 r2 where
    "store_content True 100 (blank_item\<lparr>ci_infocode := Some (cps ''AP1'')\<rparr>) [] = Inr ([] @ [r1])"
    "store_content True 200 (blank_item\<lparr>ci_infocode := Some (cps ''AP1'')\<rparr>) ([] @ [r1]) = Inr ([] @ [r2])"
    "rows_for ([] @ [r2]) (cps ''AP1'') = [r2]"
    "download_status r1 = get_or Pending (ci_download_status (blank_item\<lparr>ci_infocode := Some (cps ''AP1'')\<rparr>))"
    "create_time r1 = 100" "update_time r1 = 100" "r2 = r1\<lparr>update_time := 200\<rparr>"
    by blast
  then show ?thesis
    using h by (auto simp: blank_item_def get_or_def)
qed

section \<open>Properties of the fetcher and of processing a report\<close>

text \<open>
  The retried call returns at the first attempt whose body returns, with that attempt's
  number.
\<close>

lemma retrying_first_return:
  "k \<le> m \<Longrightarrow> (\<forall>i<k. isl (download_pdf_body (net (n + i)))) \<Longrightarrow>
   download_pdf_body (net (n + k)) = Inr v \<Longrightarrow>
   retrying m n net = (Inr v, n + k)"
proof (induction m arbitrary: n k)
  case 0
  then show ?case by simp
next
  case (Suc m)
  show ?case
  proof (cases k)
    case 0
    with Suc.prems show ?thesis by simp
  next
    case (Suc j)
    from Suc.prems(2) Suc have "isl (download_pdf_body (net n))"
      by (metis add.right_neutral zero_less_Suc)
    then obtain e where e: "download_pdf_body (net n) = Inl e"
      by (cases "download_pdf_body (net n)") auto
    have "retrying m (Suc n) net = (Inr v, Suc n + j)"
    proof (rule Suc.IH)
      show "j \<le> m" using Suc.prems(1) Suc by simp
      show "\<forall>i<j. isl (download_pdf_body (net (Suc n + i)))"
        using Suc.prems(2) Suc by (metis Suc_less_eq add_Suc_shift)
      show "download_pdf_body (net (Suc n + j)) = Inr v"
        using Suc.prems(3) Suc by simp
    qed
    then show ?thesis using e Suc by simp
  qed
qed

lemma store_content_existing:
  assumes "ci_infocode item = Some ic" "ic \<noteq> []" "rows_for tbl ic \<noteq> []"
  shows "store_content True now item tbl =
           Inr (map (\<lambda>r. if infocode r = Some ic then apply_update_data now item r else r) tbl)"
  using assms by (simp add: store_content_def report_is_exist_def rows_for_def update_report_def)

lemma store_content_returns:
  assumes "ci_infocode item = Some ic" "ic \<noteq> []"
  shows "\<exists>tbl'. store_content True now item tbl = Inr tbl' \<and> rows_for tbl' ic \<noteq> [] \<and>
           (\<forall>r \<in> set (rows_for tbl' ic).
              update_time r = now \<and>
              download_status r = get_or (download_status r) (ci_download_status item) \<and>
              error_message r = get_or (error_message r) (ci_error_message item))"
proof (cases "rows_for tbl ic = []")
  case True
  then have "store_content True now item tbl = Inr (add_report now item tbl)"
    using assms by (simp add: store_content_def report_is_exist_def rows_for_def)
  moreover have "rows_for (add_report now item tbl) ic = [last (add_report now item tbl)]"
    using True assms by (simp add: rows_for_def add_report_def)
  moreover have "update_time (last (add_report now item tbl)) = now"
    "download_status (last (add_report now item tbl)) = get_or Pending (ci_download_status item)"
    "error_message (last (add_report now item tbl)) = get_or [] (ci_error_message item)"
    by (simp_all add: add_report_def)
  ultimately show ?thesis
    by (auto simp: get_or_def split: option.splits)
next
  case False
  let ?tbl' = "map (\<lambda>r. if infocode r = Some ic then apply_update_data now item r else r) tbl"
  have st: "store_content True now item tbl = Inr ?tbl'"
    using assms False by (rule store_content_existing)
  have rows: "rows_for ?tbl' ic = map (apply_update_data now item) (rows_for tbl ic)"
    unfolding rows_for_def by (induction tbl) auto
  have "\<And>r. update_time (apply_update_data now item r) = now"
    "\<And>r. download_status (apply_update_data now item r) =
        get_or (download_status (apply_update_data now item r)) (ci_download_status item)"
    "\<And>r. error_message (apply_update_data now item r) =
        get_or (error_message (apply_update_data now item r)) (ci_error_message item)"
    by (simp_all add: apply_update_data_def get_or_def split: option.splits)
  then show ?thesis
    using st rows False by auto
qed

lemma download_pdf_body_404:
  "head_result a = Response hc hb \<Longrightarrow> get_result a = Response 404 b \<Longrightarrow>
   download_pdf_body a = Inr None"
  by (simp add: download_pdf_body_def is_success_def)

text \<open>
  C7. Take a report with a non-empty identifier and \<open>attachType = "0"\<close>, and let
  attempt \<open>1 + k\<close> (within the retry limit, every earlier attempt having raised) be one
  whose HEAD request was answered and whose GET request is answered with status 404.
  Then \<open>download_pdf\<close> returns \<open>None\<close> and attempt \<open>1 + k\<close> was its last: no further
  attempt is made. \<open>_process_report\<close> then returns normally, has called the download
  once, and leaves at least one row for the identifier, every such row with status
  \<open>Failed\<close> and the non-empty error message \<open>"PDF download returned None"\<close>.
\<close>

theorem not_found_is_terminal:
  assumes ic: "rd_infoCode rd = Some ic" "ic \<noteq> []"
      and att: "rd_attachType rd = Some (cps ''0'')"
      and k: "k < MAX_RETRIES"
      and before: "\<forall>i<k. isl (download_pdf_body (net (1 + i)))"
      and hd: "head_result (net (1 + k)) = Response hc hb"
      and nf: "get_result (net (1 + k)) = Response 404 b"
  shows "download_pdf net = (Inr None, 1 + k) \<and>
         (\<exists>st'. process_report True now net rd st = (st', None) \<and>
            fetches st' = fetches st @ [(ic, 1 + k)] \<and>
            rows_for (table st') ic \<noteq> [] \<and>
            (\<forall>r \<in> set (rows_for (table st') ic).
               download_status r = Failed \<and>
               error_message r = cps ''PDF download returned None'' \<and>
               error_message r \<noteq> []))"
proof -
  have dl: "download_pdf net = (Inr None, 1 + k)"
    unfolding download_pdf_def
    using k before download_pdf_body_404 [OF hd nf]
    by (intro retrying_first_return) (simp_all add: MAX_RETRIES_def)
  let ?item = "(db_item_of ic rd)\<lparr>ci_download_status := Some Failed,
                 ci_error_message := Some (cps ''PDF download returned None'')\<rparr>"
  let ?st1 = "st\<lparr>fetches := fetches st @ [(ic, 1 + k)]\<rparr>"
  have item_ic: "ci_infocode ?item = Some ic"
    by (simp add: db_item_of_def)
  from store_content_returns [OF item_ic ic(2), of now "table st"]
  obtain tbl' where tbl': "store_content True now ?item (table st) = Inr tbl'"
      "rows_for tbl' ic \<noteq> []"
      "\<forall>r \<in> set (rows_for tbl' ic). download_status r = Failed \<and>
          error_message r = cps ''PDF download returned None''"
    by (auto simp: get_or_def)
  have pr: "process_report True now net rd st = (?st1\<lparr>table := tbl'\<rparr>, None)"
    using ic att dl tbl'(1)
    by (simp add: process_report_def get_or_def update_eastmoney_report_def)
  have "cps ''PDF download returned None'' \<noteq> []"
    by (simp add: cps_def)
  with pr tbl' dl show ?thesis by auto
qed

lemma download_pdf_unfold:
  "download_pdf net = retrying (Suc (Suc 0)) (Suc 0) net"
  by (simp add: download_pdf_def MAX_RETRIES_def numeral_2_eq_2)

theorem not_found_is_terminal_witness:
  "(1::nat) < MAX_RETRIES \<and>
   isl (download_pdf_body (fail_then (Response 404 []) 1)) \<and>
   download_pdf (fail_then (Response 404 [])) = (Inr None, 2) \<and>
   (\<exists>st'. process_report True 5 (fail_then (Response 404 [])) example_report_data empty_state
             = (st', None) \<and>
      fetches st' = [(cps ''AP1'', 2)] \<and>
      rows_for (table st') (cps ''AP1'') \<noteq> [] \<and>
      (\<forall>r \<in> set (rows_for (table st') (cps ''AP1'')).
         download_status r = Failed \<and> error_message r \<noteq> []))"
proof -
  have h: "rd_infoCode example_report_data = Some (cps ''AP1'')" "cps ''AP1'' \<noteq> []"
    "rd_attachType example_report_data = Some (cps ''0'')"
    "(1::nat) < MAX_RETRIES"
    "\<forall>i<1. isl (download_pdf_body (fail_then (Response 404 []) (1 + i)))"
    "head_result (fail_then (Response 404 []) (1 + 1)) = Response 404 []"
    "get_result (fail_then (Response 404 []) (1 + 1)) = Response 404 []"
    by (simp_all add: example_report_data_def blank_report_data_def cps_def MAX_RETRIES_def
        fail_then_def answer_all_def download_pdf_body_def)
  from not_found_is_terminal [OF h, of 5 empty_state] h(4,5) show ?thesis
    by (auto simp: empty_state_def numeral_2_eq_2)
qed

text \<open>
  C5, as stated, fails. The table holds one \<open>Completed\<close> row for \<open>AP1\<close> and nothing
  has been downloaded in this cycle. Processing the listing record of \<open>AP1\<close> again
  calls \<open>download_pdf\<close> (the log gains an entry); and when that download is answered
  with 404, the row's status becomes \<open>Failed\<close>.
\<close>

theorem reprocess_completed_downloads_again:
  "download_status example_completed_row = Completed \<and>
   fetches example_state = [] \<and>
   fetches (fst (process_report True 200 (answer_all (Response 200 (cps ''%PDF'')))
                   example_report_data example_state)) = [(cps ''AP1'', 1)] \<and>
   map download_status (table (fst (process_report True 200 (answer_all (Response 404 []))
                   example_report_data example_state))) = [Failed]"
  by (simp add: process_report_def example_report_data_def blank_report_data_def
      example_state_def example_completed_row_def get_or_def download_pdf_unfold
      download_pdf_body_def answer_all_def is_success_def update_eastmoney_report_def
      store_content_def report_is_exist_def update_report_def apply_update_data_def
      db_item_of_def store_pdf_def cps_def Let_def)

text \<open>
  C5, amended. \<open>_process_report\<close> has no check for an already completed record. For an
  identifier whose rows all have status \<open>Completed\<close> and a listing record with
  \<open>attachType = "0"\<close>, the attachment is downloaded again. When that download returns
  content, the file is written again under the holding path derived from the identifier,
  and each row of the identifier keeps status \<open>Completed\<close> and changes in exactly four
  columns: \<open>update_time\<close> becomes the current time, \<open>pdf_path\<close> the holding path, and
  \<open>pdf_size\<close> and \<open>pdf_pages\<close> the listing's values. Title, organisation and the
  other descriptive columns, \<open>error_message\<close> and \<open>create_time\<close> stay as they were, as
  does every row of another identifier.
\<close>

theorem reprocess_completed:
  assumes ic: "rd_infoCode rd = Some ic" "ic \<noteq> []"
      and att: "rd_attachType rd = Some (cps ''0'')"
      and rows: "rows_for (table st) ic \<noteq> []"
      and completed: "\<forall>r \<in> set (rows_for (table st) ic). download_status r = Completed"
      and dl: "download_pdf net = (Inr (Some content), n)" "content \<noteq> []"
  shows "\<exists>st'. process_report True now net rd st = (st', None) \<and>
           fetches st' = fetches st @ [(ic, n)] \<and>
           files st' = (files st)(holding_path ic \<mapsto> content) \<and>
           table st' =
             map (\<lambda>r. if infocode r = Some ic
                       then r\<lparr> update_time := now, pdf_path := holding_path ic,
                               pdf_size := get_or 0 (rd_attachSize rd),
                               pdf_pages := get_or 0 (rd_attachPages rd) \<rparr>
                       else r) (table st)"
proof -
  let ?item = "(db_item_of ic rd)\<lparr>ci_pdf_path := Some (holding_path ic),
                 ci_download_status := Some Completed\<rparr>"
  have item_ic: "ci_infocode ?item = Some ic"
    by (simp add: db_item_of_def)
  have sc: "store_content True now ?item (table st) =
              Inr (map (\<lambda>r. if infocode r = Some ic then apply_update_data now ?item r else r)
                     (table st))"
    using item_ic ic(2) rows by (rule store_content_existing)
  have same: "map (\<lambda>r. if infocode r = Some ic then apply_update_data now ?item r else r) (table st)
      = map (\<lambda>r. if infocode r = Some ic
                       then r\<lparr> update_time := now, pdf_path := holding_path ic,
                               pdf_size := get_or 0 (rd_attachSize rd),
                               pdf_pages := get_or 0 (rd_attachPages rd) \<rparr>
                       else r) (table st)"
  proof (rule map_cong [OF refl])
    fix r assume r: "r \<in> set (table st)"
    show "(if infocode r = Some ic then apply_update_data now ?item r else r) =
          (if infocode r = Some ic
           then r\<lparr> update_time := now, pdf_path := holding_path ic,
                   pdf_size := get_or 0 (rd_attachSize rd),
                   pdf_pages := get_or 0 (rd_attachPages rd) \<rparr>
           else r)"
    proof (cases "infocode r = Some ic")
      case True
      with r completed have "download_status r = Completed"
        by (simp add: rows_for_def)
      with True show ?thesis
        by (simp add: apply_update_data_def db_item_of_def get_or_def)
    next
      case False
      then show ?thesis by simp
    qed
  qed
  have sp: "store_pdf ic content fs = (holding_path ic, fs(holding_path ic \<mapsto> content))" for fs
    using ic(2) dl(2) by (simp add: store_pdf_def holding_path_def Let_def)
  have "process_report True now net rd st =
          (st\<lparr>fetches := fetches st @ [(ic, n)],
              files := (files st)(holding_path ic \<mapsto> content),
              table := map (\<lambda>r. if infocode r = Some ic
                       then r\<lparr> update_time := now, pdf_path := holding_path ic,
                               pdf_size := get_or 0 (rd_attachSize rd),
                               pdf_pages := get_or 0 (rd_attachPages rd) \<rparr>
                       else r) (table st)\<rparr>, None)"
    using ic att dl sc sp
    by (simp add: process_report_def get_or_def update_eastmoney_report_def same)
  then show ?thesis by simp
qed

theorem reprocess_completed_witness:
  "rows_for (table example_state) (cps ''AP1'') \<noteq> [] \<and>
   map download_status (rows_for (table example_state) (cps ''AP1'')) = [Completed] \<and>
   download_pdf (answer_all (Response 200 (cps ''%PDF''))) = (Inr (Some (cps ''%PDF'')), 1) \<and>
   (\<exists>st'. process_report True 200 (answer_all (Response 200 (cps ''%PDF''))) example_report_data
            example_state = (st', None) \<and>
      fetches st' = [(cps ''AP1'', 1)] \<and>
      files st' = [holding_path (cps ''AP1'') \<mapsto> cps ''%PDF''] \<and>
      table st' = [example_completed_row\<lparr>update_time := 200\<rparr>])"
proof -
  have h: "rd_infoCode example_report_data = Some (cps ''AP1'')" "cps ''AP1'' \<noteq> []"
    "rd_attachType example_report_data = Some (cps ''0'')"
    "rows_for (table example_state) (cps ''AP1'') \<noteq> []"
    "\<forall>r \<in> set (rows_for (table example_state) (cps ''AP1'')). download_status r = Completed"
    "download_pdf (answer_all (Response 200 (cps ''%PDF''))) = (Inr (Some (cps ''%PDF'')), 1)"
    "cps ''%PDF'' \<noteq> []"
    by (simp_all add: example_report_data_def blank_report_data_def cps_def MAX_RETRIES_def
        answer_all_def download_pdf_body_def download_pdf_unfold is_success_def
        example_state_def example_completed_row_def rows_for_def)
  have rows: "map download_status (rows_for (table example_state) (cps ''AP1'')) = [Completed]"
    by (simp add: example_state_def example_completed_row_def rows_for_def)
  from reprocess_completed [OF h, of 200] h(4,6) rows show ?thesis
    by (simp add: example_state_def example_completed_row_def example_report_data_def
        blank_report_data_def get_or_def)
qed

section \<open>Properties of the crawl loop\<close>

text \<open>
  The pages fetched are consecutive from \<open>page_no\<close>; every one but the last returned
  records; and when each page that returns records returns at least \<open>m\<close> of them, the
  last page was fetched while fewer than \<open>max_notes\<close> records had been gathered.
\<close>

lemma crawl_loop_fetched:
  assumes "\<And>p rs. env_pages env p = Page rs \<Longrightarrow> rs \<noteq> [] \<Longrightarrow> m \<le> length rs"
      and "m * length fetched \<le> length all"
  shows "\<exists>n. pages_fetched (crawl_loop env page_no all fetched st) =
               fetched @ [page_no ..< page_no + n] \<and>
             (n = 0 \<or> m * (length fetched + n - 1) < max_notes) \<and>
             list_all (returned_records env) [page_no ..< page_no + (n - 1)]"
  using assms
proof (induction env page_no all fetched st rule: crawl_loop.induct)
  case (1 env page_no all fetched st)
  note full = "1.prems"(1) and inv = "1.prems"(2)
  show ?case
  proof (cases "length all < max_notes")
    case False
    then have "pages_fetched (crawl_loop env page_no all fetched st) = fetched @ [page_no ..< page_no + 0]"
      by (subst crawl_loop.simps) simp
    then show ?thesis by (intro exI [of _ 0]) simp
  next
    case lt: True
    have bound: "m * length fetched < max_notes"
      using inv lt by simp
    have stop: ?thesis
      if "pages_fetched (crawl_loop env page_no all fetched st) = fetched @ [page_no]"
    proof (intro exI [of _ 1] conjI)
      show "pages_fetched (crawl_loop env page_no all fetched st) = fetched @ [page_no ..< page_no + 1]"
        using that by simp
      show "1 = (0::nat) \<or> m * (length fetched + 1 - 1) < max_notes"
        using bound by simp
      show "list_all (returned_records env) [page_no ..< page_no + (1 - 1)]"
        by simp
    qed
    show ?thesis
    proof (cases "env_pages env page_no")
      case FetchRaised
      with lt show ?thesis by (intro stop) (subst crawl_loop.simps, simp)
    next
      case (Page reports)
      show ?thesis
      proof (cases "reports = []")
        case True
        with lt Page show ?thesis by (intro stop) (subst crawl_loop.simps, simp)
      next
        case ne: False
        obtain st' r where pr: "process_reports env page_no 0 reports st = (st', r)"
          by (cases "process_reports env page_no 0 reports st")
        show ?thesis
        proof (cases r)
          case (Some e)
          with lt Page ne pr show ?thesis by (intro stop) (subst crawl_loop.simps, simp)
        next
          case None
          have eq: "crawl_loop env page_no all fetched st =
                    crawl_loop env (page_no + 1) (all @ reports) (fetched @ [page_no]) st'"
            using lt Page ne pr None by (subst crawl_loop.simps) simp
          have "m \<le> length reports"
            using full Page ne by simp
          with inv have inv': "m * length (fetched @ [page_no]) \<le> length (all @ reports)"
            by simp
          have "\<exists>n. pages_fetched (crawl_loop env (page_no + 1) (all @ reports) (fetched @ [page_no]) st') =
               (fetched @ [page_no]) @ [page_no + 1 ..< page_no + 1 + n] \<and>
             (n = 0 \<or> m * (length (fetched @ [page_no]) + n - 1) < max_notes) \<and>
             list_all (returned_records env) [page_no + 1 ..< page_no + 1 + (n - 1)]"
          proof (rule "1.IH" [OF lt Page ne pr [symmetric] None])
            show "\<And>p rs. env_pages env p = Page rs \<Longrightarrow> rs \<noteq> [] \<Longrightarrow> m \<le> length rs"
              by (rule full)
            show "m * length (fetched @ [page_no]) \<le> length (all @ reports)"
              by (rule inv')
          qed
          then obtain n where n:
            "pages_fetched (crawl_loop env (page_no + 1) (all @ reports) (fetched @ [page_no]) st') =
               (fetched @ [page_no]) @ [page_no + 1 ..< page_no + 1 + n]"
            "n = 0 \<or> m * (length (fetched @ [page_no]) + n - 1) < max_notes"
            "list_all (returned_records env) [page_no + 1 ..< page_no + 1 + (n - 1)]"
            by blast
          have rr: "returned_records env page_no"
            using Page ne by (simp add: returned_records_def)
          show ?thesis
          proof (intro exI [of _ "Suc n"] conjI)
            have "[page_no ..< page_no + Suc n] = page_no # [page_no + 1 ..< page_no + 1 + n]"
              by (simp add: upt_rec)
            then show "pages_fetched (crawl_loop env page_no all fetched st) =
                  fetched @ [page_no ..< page_no + Suc n]"
              using eq n(1) by simp
            show "Suc n = 0 \<or> m * (length fetched + Suc n - 1) < max_notes"
            proof (cases "n = 0")
              case True
              with bound show ?thesis by simp
            next
              case False
              with n(2) have "m * (length (fetched @ [page_no]) + n - 1) < max_notes"
                by simp
              then show ?thesis by simp
            qed
            show "list_all (returned_records env) [page_no ..< page_no + (Suc n - 1)]"
            proof (cases n)
              case 0
              then show ?thesis by simp
            next
              case (Suc k)
              then have "[page_no ..< page_no + (Suc n - 1)] =
                         page_no # [page_no + 1 ..< page_no + 1 + (n - 1)]"
                by (simp add: upt_rec)
              with rr n(3) show ?thesis by simp
            qed
          qed
        qed
      qed
    qed
  qed
qed

text \<open>
  C9. For every listing, store, network and clock, and from every state, \<open>start\<close>
  returns (the loop is a total function: each round that does not stop adds at least
  one record to \<open>all_reports\<close>, and the loop runs only below \<open>max_notes\<close> records). The
  pages it fetched are \<open>1, \<dots>, n\<close> for some \<open>n \<le> max_notes = 250\<close>, a constant of the
  configuration, and every page before the last returned records: the loop stops at the
  first page that returns none (or raises).
\<close>

theorem crawl_loop_bounded:
  "\<exists>n. n \<le> max_notes \<and> max_notes = 250 \<and>
       pages_fetched (start env st) = [1 ..< 1 + n] \<and>
       list_all (returned_records env) [1 ..< n]"
proof -
  have "\<exists>n. pages_fetched (crawl_loop env 1 [] [] st) = [] @ [1 ..< 1 + n] \<and>
             (n = 0 \<or> 1 * (length ([]::nat list) + n - 1) < max_notes) \<and>
             list_all (returned_records env) [1 ..< 1 + (n - 1)]"
    by (rule crawl_loop_fetched) (simp_all add: Suc_le_eq)
  then obtain n where n: "pages_fetched (crawl_loop env 1 [] [] st) = [1 ..< 1 + n]"
    "n = 0 \<or> n - 1 < max_notes" "list_all (returned_records env) [1 ..< 1 + (n - 1)]"
    by auto
  have "n \<le> max_notes"
    using n(2) by auto
  moreover have "list_all (returned_records env) [1 ..< n]"
    using n(3) by (cases n) simp_all
  moreover have "max_notes = 250"
    by (simp add: max_notes_def PAGE_SIZE_def)
  ultimately show ?thesis
    using n(1) by (auto simp: start_def)
qed

text \<open>When every page that returns records is full, at most five pages are fetched.\<close>

lemma crawl_loop_full_pages:
  assumes "full_pages env"
  shows "length (pages_fetched (start env st)) \<le> 5"
proof -
  have "\<exists>n. pages_fetched (crawl_loop env 1 [] [] st) = [] @ [1 ..< 1 + n] \<and>
             (n = 0 \<or> PAGE_SIZE * (length ([]::nat list) + n - 1) < max_notes) \<and>
             list_all (returned_records env) [1 ..< 1 + (n - 1)]"
    using assms by (intro crawl_loop_fetched) (auto simp: full_pages_def)
  then obtain n where n: "pages_fetched (crawl_loop env 1 [] [] st) = [1 ..< 1 + n]"
    "n = 0 \<or> PAGE_SIZE * (n - 1) < max_notes"
    by auto
  have "n \<le> 5"
    using n(2) by (auto simp: max_notes_def PAGE_SIZE_def)
  then show ?thesis
    using n(1) by (simp add: start_def)
qed

lemma small_env_run:
  "pages_fetched (start small_env empty_state) = [1, 2]"
  by (simp add: start_def crawl_loop.simps small_env_def max_notes_def PAGE_SIZE_def
      example_no_pdf_data_def blank_report_data_def process_report_def get_or_def cps_def
      update_eastmoney_report_def store_content_def report_is_exist_def add_report_def
      empty_state_def db_item_of_def Let_def)

theorem crawl_loop_bounded_witness:
  "pages_fetched (start small_env empty_state) = [1, 2] \<and>
   returned_records small_env 1 \<and> \<not> returned_records small_env 2 \<and>
   length (pages_fetched (start small_env empty_state)) \<le> 250"
proof -
  from crawl_loop_bounded [of small_env empty_state]
  have "length (pages_fetched (start small_env empty_state)) \<le> 250"
    by auto
  moreover have "returned_records small_env 1" "\<not> returned_records small_env 2"
    by (simp_all add: returned_records_def small_env_def)
  ultimately show ?thesis
    using small_env_run by simp
qed

section \<open>Properties of the envelope unwrapper\<close>

lemma balance_append: "balance (xs @ ys) = balance xs + balance ys"
  by (induction xs) auto

lemma find_char_first:
  "c \<notin> set pre \<Longrightarrow> find_char c (pre @ c # rest) = Some (length pre)"
  by (induction pre) auto

lemma find_char_None: "c \<notin> set s \<Longrightarrow> find_char c s = None"
  by (induction s) auto

text \<open>
  With a positive depth, the scan returns the first position at which the depth comes
  back to \<open>0\<close>, and \<open>None\<close> when there is none.
\<close>

lemma scan_braces_found:
  "0 < d \<Longrightarrow> k < length cs \<Longrightarrow> d + balance (take (Suc k) cs) = 0 \<Longrightarrow>
   (\<forall>j<k. d + balance (take (Suc j) cs) \<noteq> 0) \<Longrightarrow>
   scan_braces cs d i = Some (i + k)"
proof (induction cs arbitrary: d i k)
  case Nil
  then show ?case by simp
next
  case (Cons c cs)
  show ?case
  proof (cases k)
    case 0
    with Cons.prems show ?thesis
      by (auto split: if_splits)
  next
    case (Suc k')
    define d' where "d' = d + balance [c]"
    have nz: "d' \<noteq> 0"
      using Cons.prems(4) Suc by (auto simp: d'_def dest: spec [of _ 0])
    have pos: "0 < d'"
      using nz Cons.prems(1) by (auto simp: d'_def split: if_splits)
    have step: "scan_braces (c # cs) d i = scan_braces cs d' (i + 1)"
      using nz by (auto simp: d'_def)
    have "scan_braces cs d' (i + 1) = Some (i + 1 + k')"
    proof (rule Cons.IH [OF pos])
      show "k' < length cs" using Cons.prems(2) Suc by simp
      show "d' + balance (take (Suc k') cs) = 0"
        using Cons.prems(3) Suc by (simp add: d'_def)
      show "\<forall>j<k'. d' + balance (take (Suc j) cs) \<noteq> 0"
      proof (intro allI impI)
        fix j assume "j < k'"
        then have "Suc j < k" using Suc by simp
        with Cons.prems(4) have "d + balance (take (Suc (Suc j)) (c # cs)) \<noteq> 0"
          by blast
        then show "d' + balance (take (Suc j) cs) \<noteq> 0"
          by (simp add: d'_def)
      qed
    qed
    with step Suc show ?thesis by simp
  qed
qed

lemma scan_braces_not_found:
  "0 < d \<Longrightarrow> (\<forall>k<length cs. d + balance (take (Suc k) cs) \<noteq> 0) \<Longrightarrow>
   scan_braces cs d i = None"
proof (induction cs arbitrary: d i)
  case Nil
  then show ?case by simp
next
  case (Cons c cs)
  define d' where "d' = d + balance [c]"
  have nz: "d' \<noteq> 0"
    using Cons.prems(2) by (auto simp: d'_def dest: spec [of _ 0])
  have pos: "0 < d'"
    using nz Cons.prems(1) by (auto simp: d'_def split: if_splits)
  have step: "scan_braces (c # cs) d i = scan_braces cs d' (i + 1)"
    using nz by (auto simp: d'_def)
  have "scan_braces cs d' (i + 1) = None"
  proof (rule Cons.IH [OF pos], intro allI impI)
    fix k assume "k < length cs"
    then have "Suc k < length (c # cs)" by simp
    with Cons.prems(2) have "d + balance (take (Suc (Suc k)) (c # cs)) \<noteq> 0"
      by blast
    then show "d' + balance (take (Suc k) cs) \<noteq> 0"
      by (simp add: d'_def)
  qed
  with step show ?case by simp
qed

lemma balance_take_Suc_Cons:
  "balance (take (Suc k) (c # cs)) = balance [c] + balance (take k cs)"
  by simp

lemma parse_jsonp_no_start:
  "LBRACE \<notin> set response_text \<Longrightarrow> parse_jsonp_response json_loads response_text = Inl (JSONPParseError NoStart)"
  by (simp add: parse_jsonp_response_def find_char_None)

lemma top_level_object_length:
  assumes "top_level_object js"
  shows "2 \<le> length js"
proof (rule ccontr)
  assume "\<not> 2 \<le> length js"
  with assms obtain c where "js = [c]"
    by (cases js) (auto simp: top_level_object_def Suc_le_eq)
  with assms show False
    by (auto simp: top_level_object_def)
qed

lemma parse_jsonp_object:
  assumes shape: "response_text = pre @ js @ post" and pre: "LBRACE \<notin> set pre"
      and obj: "top_level_object js"
  shows "parse_jsonp_response json_loads response_text =
           (case json_loads js of None \<Rightarrow> Inl (JSONPParseError DecodeFailed) | Some v \<Rightarrow> Inr v)"
proof -
  from obj obtain js' where js: "js = LBRACE # js'"
    by (cases js) (auto simp: top_level_object_def)
  from top_level_object_length [OF obj] js obtain k where k: "length js' = Suc k"
    by (cases js') auto
  have bal: "balance js = 0" and open_before: "\<And>n. 1 \<le> n \<Longrightarrow> n < length js \<Longrightarrow> balance (take n js) \<noteq> 0"
    using obj by (auto simp: top_level_object_def list_all_iff)
  have start: "find_char LBRACE response_text = Some (length pre)"
    unfolding shape js using pre by (simp add: find_char_first)
  have rest: "drop (length pre) response_text = LBRACE # js' @ post"
    by (simp add: shape js)
  have "scan_braces (js' @ post) 1 (length pre + 1) = Some (length pre + 1 + k)"
  proof (rule scan_braces_found)
    show "(0::int) < 1" by simp
    show "k < length (js' @ post)" using k by simp
    have "take (Suc k) (js' @ post) = js'" using k by simp
    then show "1 + balance (take (Suc k) (js' @ post)) = 0"
      using bal js by simp
    show "\<forall>j<k. 1 + balance (take (Suc j) (js' @ post)) \<noteq> 0"
    proof (intro allI impI)
      fix j assume j: "j < k"
      then have "balance (take (Suc (Suc j)) js) \<noteq> 0"
        using k js by (intro open_before) simp_all
      then show "1 + balance (take (Suc j) (js' @ post)) \<noteq> 0"
        using js j k by simp
    qed
  qed
  then have scan: "scan_braces (drop (length pre) response_text) 0 (length pre) = Some (length pre + 1 + k)"
    using rest by simp
  have "slice response_text (length pre) (length pre + 1 + k + 1) = js"
    using k by (simp add: slice_def shape js)
  with start scan show ?thesis
    by (simp add: parse_jsonp_response_def)
qed

lemma parse_jsonp_no_end:
  assumes shape: "response_text = pre @ LBRACE # rest" and pre: "LBRACE \<notin> set pre"
      and nc: "never_closed (LBRACE # rest)"
  shows "parse_jsonp_response json_loads response_text = Inl (JSONPParseError NoEnd)"
proof -
  have start: "find_char LBRACE response_text = Some (length pre)"
    unfolding shape using pre by (simp add: find_char_first)
  have "scan_braces rest 1 (length pre + 1) = None"
  proof (rule scan_braces_not_found, simp, intro allI impI)
    fix k assume "k < length rest"
    then have "Suc (Suc k) \<in> set [1 ..< Suc (length (LBRACE # rest))]"
      by (simp only: set_upt atLeastLessThan_iff list.size) arith
    moreover have "\<forall>n \<in> set [1 ..< Suc (length (LBRACE # rest))]. balance (take n (LBRACE # rest)) \<noteq> 0"
      using nc by (simp only: never_closed_def list_all_iff)
    ultimately have "balance (take (Suc (Suc k)) (LBRACE # rest)) \<noteq> 0"
      by blast
    then show "1 + balance (take (Suc k) rest) \<noteq> 0"
      by simp
  qed
  then have "scan_braces (drop (length pre) response_text) 0 (length pre) = None"
    by (simp add: shape)
  with start show ?thesis
    by (simp add: parse_jsonp_response_def)
qed

text \<open>Every text has one of the three shapes.\<close>

lemma jsonp_shapes:
  "LBRACE \<notin> set response_text \<or>
   (\<exists>pre js post. response_text = pre @ js @ post \<and> LBRACE \<notin> set pre \<and> top_level_object js) \<or>
   (\<exists>pre rest. response_text = pre @ LBRACE # rest \<and> LBRACE \<notin> set pre \<and> never_closed (LBRACE # rest))"
proof (cases "LBRACE \<in> set response_text")
  case False
  then show ?thesis by simp
next
  case True
  then obtain pre rest where shape: "response_text = pre @ LBRACE # rest" and pre: "LBRACE \<notin> set pre"
    by (auto dest: split_list_first)
  let ?s = "LBRACE # rest"
  show ?thesis
  proof (cases "never_closed ?s")
    case True
    with shape pre show ?thesis by blast
  next
    case False
    then have "\<exists>n. 1 \<le> n \<and> n \<le> length ?s \<and> balance (take n ?s) = 0"
      by (auto simp: never_closed_def list_all_iff)
    then obtain n where n: "1 \<le> n \<and> n \<le> length ?s \<and> balance (take n ?s) = 0"
      and least: "\<And>m. m < n \<Longrightarrow> \<not> (1 \<le> m \<and> m \<le> length ?s \<and> balance (take m ?s) = 0)"
      using exists_least_iff [of "\<lambda>n. 1 \<le> n \<and> n \<le> length ?s \<and> balance (take n ?s) = 0"]
      by blast
    have obj: "top_level_object (take n ?s)"
      unfolding top_level_object_def list_all_iff
    proof (intro conjI ballI)
      show "take n ?s \<noteq> []" using n by (cases n) auto
      show "hd (take n ?s) = LBRACE" using n by (cases n) auto
      show "balance (take n ?s) = 0" using n by simp
      fix m assume "m \<in> set [1 ..< length (take n ?s)]"
      then have m: "1 \<le> m" "m < n" "m \<le> length ?s"
        using n by auto
      with least [of m] have "balance (take m ?s) \<noteq> 0" by blast
      moreover have "take m (take n ?s) = take m ?s"
        using m by (simp add: min_def)
      ultimately show "balance (take m (take n ?s)) \<noteq> 0" by simp
    qed
    have "response_text = pre @ take n ?s @ drop n ?s"
      using shape by simp
    with pre obj show ?thesis by blast
  qed
qed

text \<open>
  C6. For every response body and every behaviour of \<open>json.loads\<close>:
  a body without \<open>{\<close> raises \<open>JSONPParseError\<close>;
  when the body is \<open>pre @ js @ post\<close>, where \<open>pre\<close> has no \<open>{\<close> and \<open>js\<close> runs from
  the first \<open>{\<close> to its matching top-level \<open>}\<close> (the depth counted over \<open>{\<close> and \<open>}\<close> is
  back at \<open>0\<close> at the end of \<open>js\<close> and nowhere before), then exactly \<open>js\<close> is handed to
  \<open>json.loads\<close>, whose value is returned, and whose failure raises \<open>JSONPParseError\<close>;
  when the first \<open>{\<close> is never closed, \<open>JSONPParseError\<close> is raised.
  Every body has one of these three shapes, so data is returned only in the second.
\<close>

theorem parse_jsonp_response_spec:
  "(LBRACE \<notin> set response_text \<longrightarrow>
      parse_jsonp_response json_loads response_text = Inl (JSONPParseError NoStart)) \<and>
   (\<forall>pre js post. response_text = pre @ js @ post \<and> LBRACE \<notin> set pre \<and> top_level_object js \<longrightarrow>
      parse_jsonp_response json_loads response_text =
        (case json_loads js of None \<Rightarrow> Inl (JSONPParseError DecodeFailed) | Some v \<Rightarrow> Inr v)) \<and>
   (\<forall>pre rest. response_text = pre @ LBRACE # rest \<and> LBRACE \<notin> set pre \<and> never_closed (LBRACE # rest) \<longrightarrow>
      parse_jsonp_response json_loads response_text = Inl (JSONPParseError NoEnd)) \<and>
   (LBRACE \<notin> set response_text \<or>
    (\<exists>pre js post. response_text = pre @ js @ post \<and> LBRACE \<notin> set pre \<and> top_level_object js) \<or>
    (\<exists>pre rest. response_text = pre @ LBRACE # rest \<and> LBRACE \<notin> set pre \<and> never_closed (LBRACE # rest)))"
  using parse_jsonp_no_start [of response_text json_loads] jsonp_shapes [of response_text]
  by (intro conjI allI impI) (auto intro: parse_jsonp_object parse_jsonp_no_end)

theorem parse_jsonp_response_spec_witness:
  "top_level_object (cps ''{a:{b}}'') \<and> never_closed (cps ''{a:{b})'') \<and>
   parse_jsonp_response Some (cps ''cb({a:{b}},{c})'') = Inr (cps ''{a:{b}}'') \<and>
   parse_jsonp_response (\<lambda>s. None :: nat option) (cps ''cb({a:{b}},{c})'')
     = Inl (JSONPParseError DecodeFailed) \<and>
   parse_jsonp_response (Some :: pystr \<Rightarrow> pystr option) (cps ''cb()'')
     = Inl (JSONPParseError NoStart) \<and>
   parse_jsonp_response (Some :: pystr \<Rightarrow> pystr option) (cps ''cb({a:{b})'')
     = Inl (JSONPParseError NoEnd)"
proof -
  have obj: "top_level_object (cps ''{a:{b}}'')"
    by (simp add: top_level_object_def cps_def LBRACE_def RBRACE_def upt_rec)
  have nc: "never_closed (cps ''{a:{b})'')"
    by (simp add: never_closed_def cps_def LBRACE_def RBRACE_def upt_rec)
  have split1: "cps ''cb({a:{b}},{c})'' = cps ''cb('' @ cps ''{a:{b}}'' @ cps '',{c})''"
    and split2: "cps ''cb({a:{b})'' = cps ''cb('' @ LBRACE # cps ''a:{b})''"
    and nc': "never_closed (LBRACE # cps ''a:{b})'')"
    and pre: "LBRACE \<notin> set (cps ''cb('')" and none: "LBRACE \<notin> set (cps ''cb()'')"
    using nc by (simp_all add: cps_def LBRACE_def)
  have "parse_jsonp_response Some (cps ''cb({a:{b}},{c})'') = Inr (cps ''{a:{b}}'')"
    using parse_jsonp_response_spec [of "cps ''cb({a:{b}},{c})''" Some,
        THEN conjunct2, THEN conjunct1, rule_format, of "cps ''cb(''" "cps ''{a:{b}}''" "cps '',{c})''"]
      split1 pre obj by simp
  moreover have "parse_jsonp_response (\<lambda>s. None :: nat option) (cps ''cb({a:{b}},{c})'')
      = Inl (JSONPParseError DecodeFailed)"
    using parse_jsonp_response_spec [of "cps ''cb({a:{b}},{c})''" "\<lambda>s. None",
        THEN conjunct2, THEN conjunct1, rule_format, of "cps ''cb(''" "cps ''{a:{b}}''" "cps '',{c})''"]
      split1 pre obj by simp
  moreover have "parse_jsonp_response (Some :: pystr \<Rightarrow> pystr option) (cps ''cb()'')
      = Inl (JSONPParseError NoStart)"
    using parse_jsonp_response_spec [of "cps ''cb()''" Some, THEN conjunct1] none by simp
  moreover have "parse_jsonp_response (Some :: pystr \<Rightarrow> pystr option) (cps ''cb({a:{b})'')
      = Inl (JSONPParseError NoEnd)"
    using parse_jsonp_response_spec [of "cps ''cb({a:{b})''" Some,
        THEN conjunct2, THEN conjunct2, THEN conjunct1, rule_format, of "cps ''cb(''" "cps ''a:{b})''"]
      split2 pre nc' by simp
  ultimately show ?thesis
    using obj nc by simp
qed

section \<open>Properties of the selection parsers\<close>

lemma replace_from_single:
  "replace_from [a] [b] s = map (\<lambda>c. if c = a then b else c) s"
  by (induction s) auto

lemma py_split_replaced:
  "py_split COMMA (map (\<lambda>c. if c = FULLWIDTH_COMMA then COMMA else c) s) = split_commas s"
  by (induction s) (auto simp: COMMA_def FULLWIDTH_COMMA_def)

lemma split_replace_commas:
  "py_split COMMA (py_replace [FULLWIDTH_COMMA] [COMMA] s) = split_commas s"
  by (simp add: py_replace_def replace_from_single py_split_replaced)

lemma collect_indices_eq:
  "collect_indices U n parts acc =
     (if list_all (\<lambda>tok. py_int U tok \<noteq> None) (filter (py_isdigit U) (map py_strip parts))
      then Some (acc @ map (\<lambda>v. nat (v - 1))
                   (filter (\<lambda>v. 1 \<le> v \<and> v \<le> int n)
                      (map (\<lambda>tok. the (py_int U tok)) (filter (py_isdigit U) (map py_strip parts)))))
      else None)"
proof (induction parts arbitrary: acc)
  case Nil
  then show ?case by simp
next
  case (Cons part parts)
  show ?case
  proof (cases "py_isdigit U (py_strip part)")
    case False
    then show ?thesis by (simp add: Cons.IH)
  next
    case True
    show ?thesis
    proof (cases "py_int U (py_strip part)")
      case None
      with True show ?thesis by simp
    next
      case (Some v)
      have range: "(0 \<le> v - 1 \<and> v - 1 < int n) = (1 \<le> v \<and> v \<le> int n)"
        by auto
      show ?thesis
        using True Some by (simp add: Cons.IH range Let_def)
    qed
  qed
qed

lemma process_user_selection_numbers:
  assumes "\<not> is_command (py_lower U (py_strip selection_text))"
  shows "process_user_selection U selection_text all_infocodes =
           (if list_all (\<lambda>tok. py_int U tok \<noteq> None)
                 (number_tokens U (py_lower U (py_strip selection_text)))
            then map (\<lambda>v. all_infocodes ! nat (v - 1))
                   (chosen_indices U (length all_infocodes) (py_lower U (py_strip selection_text)))
            else [])"
  using assms
  by (simp add: process_user_selection_def is_command_def Let_def split_replace_commas
      collect_indices_eq number_tokens_def chosen_indices_def comp_def)

lemma process_user_selection_subset:
  "set (process_user_selection U selection_text all_infocodes) \<subseteq> set all_infocodes"
proof (cases "is_command (py_lower U (py_strip selection_text))")
  case True
  then show ?thesis
    by (auto simp: process_user_selection_def is_command_def Let_def)
next
  case False
  have "all_infocodes ! nat (v - 1) \<in> set all_infocodes"
    if "v \<in> set (chosen_indices U (length all_infocodes) (py_lower U (py_strip selection_text)))" for v
  proof -
    from that have "1 \<le> v" "v \<le> int (length all_infocodes)"
      by (auto simp: chosen_indices_def)
    then have "nat (v - 1) < length all_infocodes" by linarith
    then show ?thesis by simp
  qed
  then show ?thesis
    by (auto simp: process_user_selection_numbers [OF False])
qed

lemmas selection_eval =
  process_user_selection_def Let_def py_strip_def py_isspace_def py_lower_def plain_cp_def
  ascii_lower_def cps_def QUANBU_BAOLIU_def QUANBU_SHANCHU_def QUXIAO_def QUANBU_def
  py_replace_def COMMA_def FULLWIDTH_COMMA_def py_isdigit_def digit_class_of_def py_int_def

lemma example_1_2_5:
  "process_user_selection U (cps ''1,2,5'') [a, b, c] = [a, b]"
  by (simp add: selection_eval)

lemma example_empty:
  "process_user_selection U (cps []) all_infocodes = []"
  by (simp add: selection_eval)

lemma example_xyz:
  "process_user_selection U (cps ''xyz'') all_infocodes = []"
  by (simp add: selection_eval)

lemma example_1_1_2:
  "process_user_selection U (cps ''1,1,2'') [a, b, c] = [a, a, b]"
  by (simp add: selection_eval)

text \<open>
  C3, as stated, fails: duplicates are not dropped. Against the offered list
  \<open>A, B, C\<close> the reply \<open>1,1,2\<close> makes \<open>process_user_selection\<close> return \<open>A, A, B\<close>, the
  identifier \<open>A\<close> twice; \<open>parse_user_selection\<close> of timed\_listener.py with the mapping of
  \<open>listen_and_process\<close> returns the same list. That second parser, moreover, does not
  split on commas: the reply \<open>1 2\<close>, in which no comma-separated token is a number,
  selects the reports 1 and 2.
\<close>

theorem selection_keeps_duplicates:
  "process_user_selection plain_tables (cps ''1,1,2'') [cps ''A'', cps ''B'', cps ''C'']
     = [cps ''A'', cps ''A'', cps ''B''] \<and>
   \<not> distinct (process_user_selection plain_tables (cps ''1,1,2'') [cps ''A'', cps ''B'', cps ''C'']) \<and>
   parse_user_selection plain_tables (cps ''1,1,2'') = Returns (Some (Numbers [1, 1, 2])) \<and>
   infocodes_of_selection (Numbers [1, 1, 2]) [cps ''A'', cps ''B'', cps ''C'']
     = [cps ''A'', cps ''A'', cps ''B''] \<and>
   number_tokens plain_tables (cps ''1 2'') = [] \<and>
   parse_user_selection plain_tables (cps ''1 2'') = Returns (Some (Numbers [1, 2])) \<and>
   infocodes_of_selection (Numbers [1, 2]) [cps ''A'', cps ''B'', cps ''C''] = [cps ''A'', cps ''B'']"
  by (simp add: selection_eval parse_user_selection_def is_decimal_def plain_tables_def
      number_tokens_def)

text \<open>
  C3, amended. For a reply whose trimmed, lowered text \<open>t\<close> is none of the commands,
  \<open>process_user_selection\<close> splits \<open>t\<close> on ASCII and full-width commas, trims the tokens,
  keeps those made of digits only, reads each as a 1-based index, drops the indices
  outside \<open>[1, n]\<close> and returns the identifiers at the remaining indices, one for each
  token and in the order of the reply: a repeated index repeats its identifier. (Should
  a kept token hold a digit that \<open>int\<close> does not accept, the selection is empty.) With
  no token made of digits the selection is empty; every identifier returned is one of
  the offered ones. For every offered \<open>a, b, c\<close>: \<open>1,2,5\<close> gives \<open>a, b\<close>; the empty reply
  and \<open>xyz\<close> give nothing; \<open>1,1,2\<close> gives \<open>a, a, b\<close>.
\<close>

theorem selection_grammar:
  "(\<not> is_command (py_lower U (py_strip selection_text)) \<longrightarrow>
      process_user_selection U selection_text all_infocodes =
        (if list_all (\<lambda>tok. py_int U tok \<noteq> None)
              (number_tokens U (py_lower U (py_strip selection_text)))
         then map (\<lambda>v. all_infocodes ! nat (v - 1))
                (chosen_indices U (length all_infocodes) (py_lower U (py_strip selection_text)))
         else [])) \<and>
   (\<not> is_command (py_lower U (py_strip selection_text)) \<and>
    number_tokens U (py_lower U (py_strip selection_text)) = [] \<longrightarrow>
      process_user_selection U selection_text all_infocodes = []) \<and>
   set (process_user_selection U selection_text all_infocodes) \<subseteq> set all_infocodes \<and>
   process_user_selection U (cps ''1,2,5'') [a, b, c] = [a, b] \<and>
   process_user_selection U (cps []) all_infocodes = [] \<and>
   process_user_selection U (cps ''xyz'') all_infocodes = [] \<and>
   process_user_selection U (cps ''1,1,2'') [a, b, c] = [a, a, b]"
proof (intro conjI impI)
  assume "\<not> is_command (py_lower U (py_strip selection_text))"
  then show "process_user_selection U selection_text all_infocodes =
        (if list_all (\<lambda>tok. py_int U tok \<noteq> None)
              (number_tokens U (py_lower U (py_strip selection_text)))
         then map (\<lambda>v. all_infocodes ! nat (v - 1))
                (chosen_indices U (length all_infocodes) (py_lower U (py_strip selection_text)))
         else [])"
    by (rule process_user_selection_numbers)
next
  assume "\<not> is_command (py_lower U (py_strip selection_text)) \<and>
    number_tokens U (py_lower U (py_strip selection_text)) = []"
  then show "process_user_selection U selection_text all_infocodes = []"
    by (simp add: process_user_selection_numbers chosen_indices_def)
qed (simp_all only: process_user_selection_subset example_1_2_5 example_empty example_xyz
      example_1_1_2)

theorem selection_grammar_witness:
  "\<not> is_command (py_lower plain_tables (py_strip (cps '' 3 , 1'' @ [FULLWIDTH_COMMA] @ cps ''2 ,9,X 1 ''))) \<and>
   chosen_indices plain_tables 3
     (py_lower plain_tables (py_strip (cps '' 3 , 1'' @ [FULLWIDTH_COMMA] @ cps ''2 ,9,X 1 ''))) = [3, 1, 2] \<and>
   process_user_selection plain_tables (cps '' 3 , 1'' @ [FULLWIDTH_COMMA] @ cps ''2 ,9,X 1 '')
     [cps ''A'', cps ''B'', cps ''C''] = [cps ''C'', cps ''A'', cps ''B''] \<and>
   \<not> is_command (py_lower plain_tables (py_strip (cps ''keep 1''))) \<and>
   number_tokens plain_tables (py_lower plain_tables (py_strip (cps ''keep 1''))) = [] \<and>
   process_user_selection plain_tables (cps ''keep 1'') [cps ''A'', cps ''B'', cps ''C''] = []"
proof -
  let ?r = "cps '' 3 , 1'' @ [FULLWIDTH_COMMA] @ cps ''2 ,9,X 1 ''"
  have c1: "\<not> is_command (py_lower plain_tables (py_strip ?r))"
    and c2: "\<not> is_command (py_lower plain_tables (py_strip (cps ''keep 1'')))"
    by (simp_all add: selection_eval is_command_def)
  have n1: "number_tokens plain_tables (py_lower plain_tables (py_strip ?r)) = [cps ''3'', cps ''1'', cps ''2'', cps ''9'']"
    and n2: "number_tokens plain_tables (py_lower plain_tables (py_strip (cps ''keep 1''))) = []"
    by (simp_all add: selection_eval number_tokens_def)
  have ch: "chosen_indices plain_tables 3 (py_lower plain_tables (py_strip ?r)) = [3, 1, 2]"
    by (simp only: chosen_indices_def n1) (simp add: selection_eval)
  have "process_user_selection plain_tables ?r [cps ''A'', cps ''B'', cps ''C''] = [cps ''C'', cps ''A'', cps ''B'']"
    using selection_grammar [of plain_tables ?r "[cps ''A'', cps ''B'', cps ''C'']", THEN conjunct1] c1
    by (simp only: n1 ch length_Cons list.size) (simp add: selection_eval)
  moreover have "process_user_selection plain_tables (cps ''keep 1'') [cps ''A'', cps ''B'', cps ''C''] = []"
    using selection_grammar [of plain_tables "cps ''keep 1''" "[cps ''A'', cps ''B'', cps ''C'']",
        THEN conjunct2, THEN conjunct1] c2 n2
    by simp
  ultimately show ?thesis
    using c1 c2 n2 ch by simp
qed

text \<open>
  C4: the reply \<open>QUANBU\<close> (two characters, "all"). \<open>parse_user_selection\<close> of
  timed\_listener.py takes it as the command to keep everything;
  \<open>process_user_selection\<close> does not know it, finds no number in it and selects nothing.
  The two other keep-all tokens select every offered identifier in both parsers.
\<close>

theorem quanbu_selects_nothing:
  "process_user_selection plain_tables QUANBU [cps ''A'', cps ''B''] = [] \<and>
   parse_user_selection plain_tables QUANBU = Returns (Some KeepAll) \<and>
   infocodes_of_selection KeepAll [cps ''A'', cps ''B''] = [cps ''A'', cps ''B''] \<and>
   process_user_selection plain_tables QUANBU_BAOLIU [cps ''A'', cps ''B''] = [cps ''A'', cps ''B''] \<and>
   process_user_selection plain_tables (cps '' ALL '') [cps ''A'', cps ''B''] = [cps ''A'', cps ''B'']"
  by (simp add: selection_eval parse_user_selection_def)

text \<open>The commands \<open>process_user_selection\<close> does know, for every offered list.\<close>

lemma process_user_selection_commands:
  "py_lower U (py_strip selection_text) \<in> set [QUANBU_BAOLIU, cps ''all''] \<Longrightarrow>
     process_user_selection U selection_text all_infocodes = all_infocodes"
  "py_lower U (py_strip selection_text) \<in>
       set [QUANBU_SHANCHU, cps ''all delete'', cps ''delete all'', QUXIAO, cps ''cancel''] \<Longrightarrow>
     process_user_selection U selection_text all_infocodes = []"
  by (auto simp: process_user_selection_def Let_def QUANBU_BAOLIU_def QUANBU_SHANCHU_def
      QUXIAO_def cps_def)

section \<open>Properties of the retention resolver\<close>

lemma prefix_dot_pdf_append:
  assumes "prefix DOT_PDF (s @ DOT_PDF)" "s \<noteq> []"
  shows "prefix DOT_PDF s"
proof -
  have P: "DOT_PDF = [46, 112, 100, 102]"
    by (simp add: DOT_PDF_def cps_def)
  show ?thesis
  proof (cases s)
    case Nil
    with assms show ?thesis by simp
  next
    case s1: (Cons a s')
    show ?thesis
    proof (cases s')
      case Nil
      with assms s1 show ?thesis by (simp add: P)
    next
      case s2: (Cons b s'')
      show ?thesis
      proof (cases s'')
        case Nil
        with assms s1 s2 show ?thesis by (simp add: P)
      next
        case s3: (Cons c s''')
        show ?thesis
        proof (cases s''')
          case Nil
          with assms s1 s2 s3 show ?thesis by (simp add: P)
        next
          case (Cons d s'''')
          with assms s1 s2 s3 show ?thesis by (simp add: P)
        qed
      qed
    qed
  qed
qed

lemma replace_from_dot_pdf:
  "\<not> sublist DOT_PDF ic \<Longrightarrow> replace_from DOT_PDF [] (ic @ DOT_PDF) = ic"
proof (induction ic)
  case Nil
  have "DOT_PDF \<noteq> []" by (simp add: DOT_PDF_def cps_def)
  then obtain c cs where P: "DOT_PDF = c # cs" by (cases DOT_PDF) auto
  have "replace_from DOT_PDF [] (c # cs) = [] @ replace_from DOT_PDF [] (drop (length DOT_PDF) (c # cs))"
    by (simp add: P)
  then show ?case by (simp add: P)
next
  case (Cons c ic)
  have no_pre: "\<not> prefix DOT_PDF (c # ic)"
    using Cons.prems by (auto dest: prefix_imp_sublist)
  have "\<not> prefix DOT_PDF ((c # ic) @ DOT_PDF)"
    using no_pre prefix_dot_pdf_append [of "c # ic"] by blast
  moreover have "\<not> sublist DOT_PDF ic"
    using Cons.prems by (auto simp: sublist_Cons_right)
  ultimately show ?case
    using Cons.IH by simp
qed

lemma infocode_of_well_named:
  "\<not> sublist DOT_PDF ic \<Longrightarrow> infocode_of (ic @ DOT_PDF) = ic"
  by (simp add: infocode_of_def py_replace_def DOT_PDF_def cps_def replace_from_dot_pdf [unfolded DOT_PDF_def cps_def, simplified])

lemma move_one_frame:
  assumes "move_one env infocodes f' (fs, result) = Inr (fs', result')"
  shows "f \<noteq> f' \<longrightarrow> holding fs' f = holding fs f"
    and "infocode_of f' @ DOT_PDF \<noteq> g \<longrightarrow> target fs' g = target fs g"
    and "infocode_of f' \<noteq> ic \<longrightarrow> result' ic = result ic"
    and "holding fs' f = None \<or> holding fs' f = holding fs f"
  using assms
  by (auto simp: move_one_def Let_def os_rename_def os_remove_holding_def os_remove_target_def
      split: if_splits sum.splits os_error.splits option.splits)

lemma move_one_selected:
  assumes "move_one env infocodes f (fs, result) = Inr (fs1, result1)"
      and "holding fs f = Some content" "infocode_of f \<in> set infocodes"
  shows "fs1 = fs\<lparr> holding := (holding fs)(f := None),
                    target := (target fs)(infocode_of f @ DOT_PDF \<mapsto> content) \<rparr>"
    and "result1 = result(infocode_of f \<mapsto> os_path_join TARGET_PDF_DIR (infocode_of f @ DOT_PDF))"
  using assms
  by (auto simp: move_one_def Let_def os_rename_def os_remove_target_def
      split: if_splits)

lemma move_one_selected_raises:
  assumes "move_one env infocodes f (fs, result) = Inl e" "holding fs f \<noteq> None"
  shows "infocode_of f \<in> set infocodes \<and>
         (f \<in> unmovable env \<or> infocode_of f @ DOT_PDF \<in> target_locked env)"
  using assms
  by (auto simp: move_one_def Let_def os_rename_def os_remove_holding_def os_remove_target_def
      split: if_splits sum.splits os_error.splits option.splits)

lemma move_one_unselected:
  assumes "infocode_of f \<notin> set infocodes"
  shows "move_one env infocodes f (fs, result) =
           Inr (if f \<in> locked env then fs else fs\<lparr> holding := (holding fs)(f := None) \<rparr>, result)"
  using assms
  by (auto simp: move_one_def Let_def os_remove_holding_def fun_upd_idem)

text \<open>The rounds for other all_files leave a file and its identifier alone.\<close>

lemma move_loop_frame:
  assumes "move_loop env infocodes all_files (fs, result) = Inr (fs', result')"
      and "f \<notin> set all_files" "\<forall>f' \<in> set all_files. infocode_of f' \<noteq> ic"
  shows "holding fs' f = holding fs f \<and> target fs' (ic @ DOT_PDF) = target fs (ic @ DOT_PDF) \<and>
         result' ic = result ic"
  using assms
proof (induction all_files arbitrary: fs result)
  case Nil
  then show ?case by simp
next
  case (Cons f' all_files)
  from Cons.prems(1) obtain fs1 result1 where
    one: "move_one env infocodes f' (fs, result) = Inr (fs1, result1)" and
    rest: "move_loop env infocodes all_files (fs1, result1) = Inr (fs', result')"
    by (auto split: sum.splits)
  have "holding fs' f = holding fs1 f \<and> target fs' (ic @ DOT_PDF) = target fs1 (ic @ DOT_PDF) \<and>
        result' ic = result1 ic"
    using rest Cons.prems(2,3) by (intro Cons.IH) auto
  moreover have "holding fs1 f = holding fs f" "target fs1 (ic @ DOT_PDF) = target fs (ic @ DOT_PDF)"
    "result1 ic = result ic"
    using move_one_frame [OF one] Cons.prems(2,3) by auto
  ultimately show ?case by simp
qed

text \<open>
  The loop raises only on a selected file that cannot be moved, or whose place in the
  target directory is taken by a file that cannot be removed.
\<close>

lemma move_loop_returns:
  assumes "distinct all_files" "set all_files \<subseteq> dom (holding fs)"
      and "\<forall>f \<in> set all_files. infocode_of f \<in> set infocodes \<longrightarrow>
             f \<notin> unmovable env \<and> infocode_of f @ DOT_PDF \<notin> target_locked env"
  shows "\<exists>st'. move_loop env infocodes all_files (fs, result) = Inr st'"
  using assms
proof (induction all_files arbitrary: fs result)
  case Nil
  then show ?case by simp
next
  case (Cons f all_files)
  have present: "holding fs f \<noteq> None"
    using Cons.prems(2) by auto
  have "\<not> isl (move_one env infocodes f (fs, result))"
  proof
    assume "isl (move_one env infocodes f (fs, result))"
    then obtain e where "move_one env infocodes f (fs, result) = Inl e"
      by (cases "move_one env infocodes f (fs, result)") auto
    from move_one_selected_raises [OF this present] Cons.prems(3) show False
      by auto
  qed
  then obtain fs1 result1 where one: "move_one env infocodes f (fs, result) = Inr (fs1, result1)"
    by (cases "move_one env infocodes f (fs, result)") auto
  have "\<exists>st'. move_loop env infocodes all_files (fs1, result1) = Inr st'"
  proof (rule Cons.IH)
    show "distinct all_files" using Cons.prems(1) by simp
    show "set all_files \<subseteq> dom (holding fs1)"
    proof
      fix g assume g: "g \<in> set all_files"
      then have "g \<noteq> f" using Cons.prems(1) by auto
      with move_one_frame(1) [OF one, of g] have "holding fs1 g = holding fs g" by simp
      with g Cons.prems(2) show "g \<in> dom (holding fs1)" by auto
    qed
    show "\<forall>f \<in> set all_files. infocode_of f \<in> set infocodes \<longrightarrow>
             f \<notin> unmovable env \<and> infocode_of f @ DOT_PDF \<notin> target_locked env"
      using Cons.prems(3) by simp
  qed
  with one show ?case by simp
qed

text \<open>
  The loop, for one file \<open>f = ic.pdf\<close> of the list whose identifier is recovered from
  its name and shared with no other file of the list.
\<close>

lemma move_loop_file:
  assumes "move_loop env infocodes all_files (fs, result) = Inr (fs', result')"
      and "distinct all_files" "f \<in> set all_files" "f = ic @ DOT_PDF" "infocode_of f = ic"
      and "\<forall>f' \<in> set all_files. infocode_of f' = ic \<longrightarrow> f' = f"
      and "holding fs f = Some content"
  shows "if ic \<in> set infocodes
         then holding fs' f = None \<and> target fs' f = Some content \<and>
              result' ic = Some (os_path_join TARGET_PDF_DIR f)
         else target fs' f = target fs f \<and> result' ic = result ic \<and>
              holding fs' f = (if f \<in> locked env then Some content else None)"
  using assms(1,2,3,6,7)
proof (induction all_files arbitrary: fs result)
  case Nil
  then show ?case by simp
next
  case (Cons f' all_files)
  from Cons.prems(1) obtain fs1 result1 where
    one: "move_one env infocodes f' (fs, result) = Inr (fs1, result1)" and
    rest: "move_loop env infocodes all_files (fs1, result1) = Inr (fs', result')"
    by (auto split: sum.splits)
  show ?case
  proof (cases "f' = f")
    case True
    have notin: "f \<notin> set all_files" using Cons.prems(2) True by simp
    have others: "\<forall>g \<in> set all_files. infocode_of g \<noteq> ic"
      using Cons.prems(4) notin by auto
    from move_loop_frame [OF rest notin others]
    have frame: "holding fs' f = holding fs1 f" "target fs' f = target fs1 f" "result' ic = result1 ic"
      using assms(4) by simp_all
    show ?thesis
    proof (cases "ic \<in> set infocodes")
      case sel: True
      have one': "move_one env infocodes f (fs, result) = Inr (fs1, result1)"
        using one True by simp
      have sel': "infocode_of f \<in> set infocodes"
        using sel assms(5) by simp
      from move_one_selected [OF one' Cons.prems(5) sel'] assms(5)
      have "fs1 = fs\<lparr> holding := (holding fs)(f := None), target := (target fs)(ic @ DOT_PDF \<mapsto> content) \<rparr>"
        "result1 = result(ic \<mapsto> os_path_join TARGET_PDF_DIR (ic @ DOT_PDF))"
        by simp_all
      with frame sel assms(4) show ?thesis by simp
    next
      case unsel: False
      from move_one_unselected [of f infocodes env fs result] unsel assms(5) one True
      have "fs1 = (if f \<in> locked env then fs else fs\<lparr> holding := (holding fs)(f := None) \<rparr>)"
        "result1 = result"
        by simp_all
      with frame unsel Cons.prems(5) show ?thesis by simp
    qed
  next
    case False
    then have other: "infocode_of f' \<noteq> ic"
      using Cons.prems(4) by auto
    have same: "holding fs1 f = holding fs f" "target fs1 f = target fs f" "result1 ic = result ic"
      using move_one_frame(1) [OF one, of f] move_one_frame(2) [OF one, of f]
        move_one_frame(3) [OF one, of ic] False other assms(4) by auto
    have "if ic \<in> set infocodes
         then holding fs' f = None \<and> target fs' f = Some content \<and>
              result' ic = Some (os_path_join TARGET_PDF_DIR f)
         else target fs' f = target fs1 f \<and> result' ic = result1 ic \<and>
              holding fs' f = (if f \<in> locked env then Some content else None)"
    proof (rule Cons.IH [OF rest])
      show "distinct all_files" using Cons.prems(2) by simp
      show "f \<in> set all_files" using Cons.prems(3) False by simp
      show "\<forall>f' \<in> set all_files. infocode_of f' = ic \<longrightarrow> f' = f" using Cons.prems(4) by simp
      show "holding fs1 f = Some content" using same Cons.prems(5) by simp
    qed
    with same show ?thesis by simp
  qed
qed

text \<open>With the empty selection every round deletes, and none raises.\<close>

lemma move_loop_empty_selection:
  "\<exists>fs'. move_loop env [] names (fs, result) = Inr (fs', result) \<and> target fs' = target fs \<and>
         (\<forall>f. holding fs' f = (if f \<in> set names \<and> f \<notin> locked env then None else holding fs f))"
proof (induction names arbitrary: fs)
  case Nil
  then show ?case by simp
next
  case (Cons f names)
  let ?fs1 = "if f \<in> locked env then fs else fs\<lparr> holding := (holding fs)(f := None) \<rparr>"
  have one: "move_one env [] f (fs, result) = Inr (?fs1, result)"
    by (rule move_one_unselected) simp
  from Cons.IH [of ?fs1] obtain fs' where
    "move_loop env [] names (?fs1, result) = Inr (fs', result)" "target fs' = target ?fs1"
    "\<forall>g. holding fs' g = (if g \<in> set names \<and> g \<notin> locked env then None else holding ?fs1 g)"
    by blast
  with one show ?case
    by (intro exI [of _ fs']) auto
qed

text \<open>
  \<open>move_to_target([])\<close> raises where the target directory cannot be created or the
  holding directory cannot be listed, and nowhere else; the directories are then as
  they were.
\<close>

lemma move_to_target_raises:
  "\<not> makedirs_ok env \<or> listdir env (holding fs) = None \<Longrightarrow>
   move_to_target env infocodes fs = Inl (OSError, fs)"
  by (auto simp: move_to_target_def)

lemma move_to_target_empty_selection:
  assumes "makedirs_ok env" "listdir env (holding fs) = Some names"
  shows "\<exists>fs'. move_to_target env [] fs = Inr (fs', Map.empty) \<and> target fs' = target fs \<and>
         (\<forall>f. holding fs' f =
            (if f \<in> set names \<and> endswith_pdf f \<and> f \<notin> locked env
             then None else holding fs f))"
  using move_loop_empty_selection [of env "filter endswith_pdf names" fs Map.empty] assms
  by (auto simp: move_to_target_def)

lemma move_to_target_empty_target:
  "target (final_dirs (move_to_target env [] fs)) = target fs"
proof (cases "makedirs_ok env \<and> listdir env (holding fs) \<noteq> None")
  case True
  then obtain names where "makedirs_ok env" "listdir env (holding fs) = Some names"
    by auto
  from move_to_target_empty_selection [OF this] show ?thesis
    by (auto simp: final_dirs_def)
next
  case False
  then have "move_to_target env [] fs = Inl (OSError, fs)"
    by (intro move_to_target_raises) auto
  then show ?thesis
    by (simp add: final_dirs_def)
qed

lemmas resolver_eval =
  move_to_target_def move_one_def Let_def os_rename_def os_remove_holding_def
  os_remove_target_def os_with_def endswith_pdf_def infocode_of_def py_replace_def DOT_PDF_def
  cps_def suffix_to_prefix final_dirs_def placement_def example_dirs_def

text \<open>
  C1, as stated, fails in two ways. A file the reviewer did not select and the system
  refuses to delete is still in the holding directory when \<open>move_to_target\<close> returns:
  the \<open>OSError\<close> is caught and logged. And a file named \<open>a.pdf.pdf\<close>, whose identifier
  \<open>a.pdf\<close> is selected, is deleted and not moved: \<open>replace(".pdf", "")\<close> removes every
  occurrence, so the file is taken for the identifier \<open>a\<close>.
\<close>

theorem move_to_target_leaves_or_loses:
  "\<not> isl (move_to_target (os_with [cps ''x.pdf''] [cps ''x.pdf''] True) [] (example_dirs (cps ''x.pdf''))) \<and>
   placement (final_dirs (move_to_target (os_with [cps ''x.pdf''] [cps ''x.pdf''] True) []
                (example_dirs (cps ''x.pdf'')))) (cps ''x.pdf'') = (Some (cps ''%PDF''), None) \<and>
   \<not> isl (move_to_target (os_with [cps ''a.pdf.pdf''] [] True) [cps ''a.pdf'']
            (example_dirs (cps ''a.pdf.pdf''))) \<and>
   placement (final_dirs (move_to_target (os_with [cps ''a.pdf.pdf''] [] True) [cps ''a.pdf'']
                (example_dirs (cps ''a.pdf.pdf'')))) (cps ''a.pdf.pdf'') = (None, None) \<and>
   placement (final_dirs (move_to_target (os_with [cps ''a.pdf.pdf''] [] True) [cps ''a.pdf'']
                (example_dirs (cps ''a.pdf.pdf'')))) (cps ''a.pdf'') = (None, None)"
  by (simp add: resolver_eval)

text \<open>
  C1, amended. Let \<open>os.listdir\<close> list the holding directory, and let \<open>ic.pdf\<close> be a file
  of it whose identifier \<open>ic\<close> does not itself contain \<open>.pdf\<close> and for which no other
  file of the directory is taken. When \<open>move_to_target\<close> returns: if \<open>ic\<close> is in the
  selection, the file is gone from the holding directory and the target directory holds
  it under \<open>ic.pdf\<close>, whatever was there before; if \<open>ic\<close> is not in the selection, the
  target directory's entry \<open>ic.pdf\<close> is what it was, and the file is gone from the
  holding directory, unless the system refused to delete it, in which case it is still
  there. It is never left in the holding directory and also put in the target
  directory. As to returning: \<open>move_to_target\<close> returns when the target directory can
  be created and the system refuses for no selected file to move it, or to remove the
  file that has its place in the target directory; where the target directory cannot be
  created it raises \<open>OSError\<close>, the directories unchanged.
\<close>

theorem move_to_target_placement:
  assumes ls: "lists_holding env fs"
      and present: "holding fs (ic @ DOT_PDF) = Some content"
      and ic: "\<not> sublist DOT_PDF ic"
      and uniq: "\<forall>f \<in> dom (holding fs). endswith_pdf f \<and> infocode_of f = ic \<longrightarrow> f = ic @ DOT_PDF"
  shows "(makedirs_ok env \<and>
          (\<forall>f \<in> dom (holding fs). endswith_pdf f \<and> infocode_of f \<in> set infocodes \<longrightarrow>
             f \<notin> unmovable env \<and> infocode_of f @ DOT_PDF \<notin> target_locked env) \<longrightarrow>
            (\<exists>fs' result. move_to_target env infocodes fs = Inr (fs', result))) \<and>
         (\<not> makedirs_ok env \<longrightarrow> move_to_target env infocodes fs = Inl (OSError, fs)) \<and>
         (\<forall>fs' result. move_to_target env infocodes fs = Inr (fs', result) \<longrightarrow>
            (if ic \<in> set infocodes
             then holding fs' (ic @ DOT_PDF) = None \<and> target fs' (ic @ DOT_PDF) = Some content \<and>
                  result ic = Some (os_path_join TARGET_PDF_DIR (ic @ DOT_PDF))
             else target fs' (ic @ DOT_PDF) = target fs (ic @ DOT_PDF) \<and> result ic = None \<and>
                  holding fs' (ic @ DOT_PDF) =
                    (if ic @ DOT_PDF \<in> locked env then Some content else None)))"
proof (intro conjI allI impI)
  from ls obtain listed where listed: "listdir env (holding fs) = Some listed"
    and dist0: "distinct listed" and all0: "set listed = dom (holding fs)"
    by (auto simp: lists_holding_def split: option.splits)
  let ?names = "filter endswith_pdf listed"
  have dist: "distinct ?names" and sub: "set ?names \<subseteq> dom (holding fs)"
    using dist0 all0 by auto
  {
    assume ok: "makedirs_ok env \<and>
          (\<forall>f \<in> dom (holding fs). endswith_pdf f \<and> infocode_of f \<in> set infocodes \<longrightarrow>
             f \<notin> unmovable env \<and> infocode_of f @ DOT_PDF \<notin> target_locked env)"
    then have "\<forall>f \<in> set ?names. infocode_of f \<in> set infocodes \<longrightarrow>
             f \<notin> unmovable env \<and> infocode_of f @ DOT_PDF \<notin> target_locked env"
      using sub by auto
    from move_loop_returns [OF dist sub this, of Map.empty] ok listed
    show "\<exists>fs' result. move_to_target env infocodes fs = Inr (fs', result)"
      by (auto simp: move_to_target_def)
  }
  {
    assume "\<not> makedirs_ok env"
    then show "move_to_target env infocodes fs = Inl (OSError, fs)"
      by (simp add: move_to_target_def)
  }
  fix fs' result
  assume ret: "move_to_target env infocodes fs = Inr (fs', result)"
  have "if ic \<in> set infocodes
         then holding fs' (ic @ DOT_PDF) = None \<and> target fs' (ic @ DOT_PDF) = Some content \<and>
              result ic = Some (os_path_join TARGET_PDF_DIR (ic @ DOT_PDF))
         else target fs' (ic @ DOT_PDF) = target fs (ic @ DOT_PDF) \<and> result ic = Map.empty ic \<and>
              holding fs' (ic @ DOT_PDF) = (if ic @ DOT_PDF \<in> locked env then Some content else None)"
  proof (rule move_loop_file [where all_files = ?names and f = "ic @ DOT_PDF"])
    show "move_loop env infocodes ?names (fs, Map.empty) = Inr (fs', result)"
      using ret listed by (simp add: move_to_target_def split: if_splits)
    show "distinct ?names" by (rule dist)
    have "endswith_pdf (ic @ DOT_PDF)"
      by (simp add: endswith_pdf_def suffix_def)
    then show "ic @ DOT_PDF \<in> set ?names"
      using all0 present by auto
    show "ic @ DOT_PDF = ic @ DOT_PDF" by simp
    show "infocode_of (ic @ DOT_PDF) = ic" using ic by (rule infocode_of_well_named)
    show "\<forall>f' \<in> set ?names. infocode_of f' = ic \<longrightarrow> f' = ic @ DOT_PDF"
      using uniq sub by auto
    show "holding fs (ic @ DOT_PDF) = Some content" by (rule present)
  qed
  then show "if ic \<in> set infocodes
             then holding fs' (ic @ DOT_PDF) = None \<and> target fs' (ic @ DOT_PDF) = Some content \<and>
                  result ic = Some (os_path_join TARGET_PDF_DIR (ic @ DOT_PDF))
             else target fs' (ic @ DOT_PDF) = target fs (ic @ DOT_PDF) \<and> result ic = None \<and>
                  holding fs' (ic @ DOT_PDF) =
                    (if ic @ DOT_PDF \<in> locked env then Some content else None)"
    by simp
qed

theorem move_to_target_placement_witness:
  "makedirs_ok (os_with [cps ''AP2.pdf'', cps ''AP1.pdf''] [] False) \<and>
   lists_holding (os_with [cps ''AP2.pdf'', cps ''AP1.pdf''] [] False) example_two_dirs \<and>
   placement example_two_dirs (cps ''AP1.pdf'') = (Some (cps ''new''), Some (cps ''old'')) \<and>
   \<not> sublist DOT_PDF (cps ''AP1'') \<and> \<not> sublist DOT_PDF (cps ''AP2'') \<and>
   (\<exists>fs' result.
      move_to_target (os_with [cps ''AP2.pdf'', cps ''AP1.pdf''] [] False) [cps ''AP1''] example_two_dirs
        = Inr (fs', result) \<and>
      placement fs' (cps ''AP1.pdf'') = (None, Some (cps ''new'')) \<and>
      placement fs' (cps ''AP2.pdf'') = (None, None)) \<and>
   lists_holding (os_without_target [cps ''AP2.pdf'', cps ''AP1.pdf'']) example_two_dirs \<and>
   move_to_target (os_without_target [cps ''AP2.pdf'', cps ''AP1.pdf'']) [cps ''AP1''] example_two_dirs
     = Inl (OSError, example_two_dirs)"
proof -
  let ?env = "os_with [cps ''AP2.pdf'', cps ''AP1.pdf''] [] False"
  let ?bad = "os_without_target [cps ''AP2.pdf'', cps ''AP1.pdf'']"
  have names: "cps ''AP1.pdf'' = cps ''AP1'' @ DOT_PDF" "cps ''AP2.pdf'' = cps ''AP2'' @ DOT_PDF"
    by (simp_all add: cps_def DOT_PDF_def)
  have mk: "makedirs_ok ?env" and nomk: "\<not> makedirs_ok ?bad"
    by (simp_all add: os_with_def os_without_target_def)
  have ls: "lists_holding ?env example_two_dirs"
    and ls_bad: "lists_holding ?bad example_two_dirs"
    by (auto simp: lists_holding_def os_with_def os_without_target_def example_two_dirs_def cps_def)
  have p1: "holding example_two_dirs (cps ''AP1'' @ DOT_PDF) = Some (cps ''new'')"
    and p2: "holding example_two_dirs (cps ''AP2'' @ DOT_PDF) = Some (cps ''other'')"
    by (simp_all add: example_two_dirs_def cps_def DOT_PDF_def)
  have s1: "\<not> sublist DOT_PDF (cps ''AP1'')" and s2: "\<not> sublist DOT_PDF (cps ''AP2'')"
    by (simp_all add: cps_def DOT_PDF_def sublist_code)
  have u1: "\<forall>f \<in> dom (holding example_two_dirs).
              endswith_pdf f \<and> infocode_of f = cps ''AP1'' \<longrightarrow> f = cps ''AP1'' @ DOT_PDF"
    and u2: "\<forall>f \<in> dom (holding example_two_dirs).
              endswith_pdf f \<and> infocode_of f = cps ''AP2'' \<longrightarrow> f = cps ''AP2'' @ DOT_PDF"
    by (simp_all add: example_two_dirs_def resolver_eval)
  have unlocked: "\<forall>f \<in> dom (holding example_two_dirs).
      endswith_pdf f \<and> infocode_of f \<in> set [cps ''AP1''] \<longrightarrow>
        f \<notin> unmovable ?env \<and> infocode_of f @ DOT_PDF \<notin> target_locked ?env"
    by (simp add: os_with_def)
  note t1 = move_to_target_placement [OF ls p1 s1 u1, of "[cps ''AP1'']"]
  note t2 = move_to_target_placement [OF ls p2 s2 u2, of "[cps ''AP1'']"]
  note t3 = move_to_target_placement [OF ls_bad p1 s1 u1, of "[cps ''AP1'']"]
  from t1 mk unlocked obtain fs' result where
    ret: "move_to_target ?env [cps ''AP1''] example_two_dirs = Inr (fs', result)"
    by blast
  have "placement fs' (cps ''AP1.pdf'') = (None, Some (cps ''new''))"
    using t1 ret by (simp add: placement_def names)
  moreover have "placement fs' (cps ''AP2.pdf'') = (None, None)"
    using t2 ret by (simp add: placement_def names cps_def os_with_def example_two_dirs_def DOT_PDF_def)
  moreover have "placement example_two_dirs (cps ''AP1.pdf'') = (Some (cps ''new''), Some (cps ''old''))"
    by (simp add: placement_def example_two_dirs_def cps_def)
  moreover have "move_to_target ?bad [cps ''AP1''] example_two_dirs = Inl (OSError, example_two_dirs)"
    using t3 nomk by blast
  ultimately show ?thesis
    using mk ls ls_bad s1 s2 ret by blast
qed

section \<open>Properties of the notification and of the timed listener\<close>

text \<open>
  Line 214 of \<open>send_report_list\<close> calls a name that nothing binds: the import statements
  bind the names they list, not that of the module they read from. The \<open>NameError\<close> is
  caught at line 219, so that \<open>send_report_list\<close> returns \<open>False\<close> whatever the
  messaging side does, and \<open>send_and_notify_reports\<close> returns \<open>None\<close>.
\<close>

lemma mcp_message_create_unbound:
  "load_name send_report_list_locals send_report_list_bound_214 eastmoney_bot_globals
     MCP_MESSAGE_CREATE = Some NameError"
  by (simp add: load_name_def send_report_list_locals_def mcp_imported_names_def
      eastmoney_bot_globals_def MCP_MESSAGE_CREATE_def cps_def)

lemma send_report_list_never_sends:
  "\<not> send_report_list fe reports"
  "send_and_notify_reports fe reports = None"
  by (simp_all add: send_and_notify_reports_def send_report_list_def mcp_message_create_unbound)

text \<open>
  Line 210 of \<open>listen_and_process\<close> reads \<open>time\<close>, a local of the function that nothing
  has bound yet: it raises \<open>UnboundLocalError\<close>. So the function ends before its loop,
  by that exception or by the return on a chat that cannot be found, and whatever the
  rest of it would do, the directories are as they were: neither a selection nor the
  timeout reaches the resolver.
\<close>

lemma time_unbound_at_line_210:
  "load_name listen_and_process_locals listen_and_process_bound_210 timed_listener_globals
     (cps ''time'') = Some UnboundLocalError"
  by (simp add: load_name_def listen_and_process_locals_def listen_and_process_bound_210_def
      cps_def)

lemma listen_and_process_stops_before_loop:
  "listen_and_process lenv remainder fs =
     (if \<not> listener_created lenv then Inl (OtherException, fs)
      else if \<not> chat_id_fetched lenv then Inr fs
      else Inl (UnboundLocalError, fs))"
  by (simp add: listen_and_process_def time_unbound_at_line_210)

section \<open>Properties of the paths without a selection\<close>

text \<open>
  C2, as stated, fails. With \<open>FEISHU_CHAT_ID\<close> not configured the message cannot be
  sent, \<open>send_and_notify_reports\<close> returns \<open>None\<close>, and \<open>manual_crawl\<close> does not call the
  resolver: the downloaded file is still in the holding directory when the cycle ends,
  whereas \<open>move_to_target([])\<close> on the same directories deletes it.
\<close>

theorem manual_crawl_keeps_unsent:
  "send_and_notify_reports feishu_unconfigured [cps ''AP1''] = None \<and>
   placement (manual_crawl_resolve (os_with [cps ''AP1.pdf''] [] True) feishu_unconfigured
                [cps ''AP1''] (example_dirs (cps ''AP1.pdf''))) (cps ''AP1.pdf'')
     = (Some (cps ''%PDF''), None) \<and>
   placement (final_dirs (move_to_target (os_with [cps ''AP1.pdf''] [] True) []
                (example_dirs (cps ''AP1.pdf'')))) (cps ''AP1.pdf'')
     = (None, None)"
  by (simp add: resolver_eval manual_crawl_resolve_def send_and_notify_reports_def
      send_report_list_def feishu_unconfigured_def SEND_LIST_TO_FEISHU_def)

text \<open>
  C2, amended. When the notification is not sent, \<open>send_and_notify_reports\<close> returns
  \<open>None\<close>, and neither \<open>manual_crawl\<close> nor \<open>crawl_eastmoney_reports\<close> calls the resolver:
  the directories stay as they are, the downloaded files in the holding directory.
  \<open>scheduled_crawl_job\<close>, when its wait has ended, then leaves the directories exactly
  as \<open>move_to_target([])\<close> does. On each of these paths, sent or not, the target
  directory is what it was: no file that was not selected is retained there.
  \<open>move_to_target([])\<close> itself raises where the target directory cannot be created or
  the holding directory cannot be listed, and nowhere else, and leaves the directories
  unchanged when it does; where the target directory can be created and \<open>os.listdir\<close>
  lists the holding directory, every \<open>.pdf\<close> file that the system lets it delete is gone
  from the holding directory, and no other file is touched. A reply that is no command
  and in which \<open>process_user_selection\<close> finds no number gives the empty selection:
  resolving it is \<open>move_to_target([])\<close>.
\<close>

theorem no_selection_paths:
  "(\<not> send_report_list fe new_reports \<longrightarrow>
      send_and_notify_reports fe new_reports = None \<and>
      manual_crawl_resolve env fe new_reports fs = fs \<and>
      crawl_eastmoney_reports_resolve env fe new_reports fs = fs \<and>
      scheduled_crawl_job_resolve env fe new_reports fs = final_dirs (move_to_target env [] fs)) \<and>
   target (manual_crawl_resolve env fe new_reports fs) = target fs \<and>
   target (scheduled_crawl_job_resolve env fe new_reports fs) = target fs \<and>
   target (final_dirs (move_to_target env [] fs)) = target fs \<and>
   (isl (move_to_target env [] fs) \<longleftrightarrow> \<not> makedirs_ok env \<or> listdir env (holding fs) = None) \<and>
   (isl (move_to_target env [] fs) \<longrightarrow> final_dirs (move_to_target env [] fs) = fs) \<and>
   (makedirs_ok env \<and> lists_holding env fs \<longrightarrow>
      (\<forall>f. holding (final_dirs (move_to_target env [] fs)) f =
         (if endswith_pdf f \<and> f \<notin> locked env then None else holding fs f))) \<and>
   (\<not> is_command (py_lower U (py_strip selection_text)) \<and>
    number_tokens U (py_lower U (py_strip selection_text)) = [] \<longrightarrow>
      move_to_target env (process_user_selection U selection_text all_infocodes) fs =
        move_to_target env [] fs)"
proof -
  have unsent: "send_and_notify_reports fe new_reports = None \<and>
      manual_crawl_resolve env fe new_reports fs = fs \<and>
      crawl_eastmoney_reports_resolve env fe new_reports fs = fs \<and>
      scheduled_crawl_job_resolve env fe new_reports fs = final_dirs (move_to_target env [] fs)"
    if "\<not> send_report_list fe new_reports"
    using that
    by (simp add: send_and_notify_reports_def manual_crawl_resolve_def
        crawl_eastmoney_reports_resolve_def scheduled_crawl_job_resolve_def)
  have manual: "manual_crawl_resolve env fe new_reports fs = fs \<or>
      manual_crawl_resolve env fe new_reports fs = final_dirs (move_to_target env [] fs)"
    by (simp add: manual_crawl_resolve_def send_and_notify_reports_def)
  have crawl: "crawl_eastmoney_reports_resolve env fe new_reports fs = fs \<or>
      crawl_eastmoney_reports_resolve env fe new_reports fs = final_dirs (move_to_target env [] fs)"
    by (simp add: crawl_eastmoney_reports_resolve_def send_and_notify_reports_def)
  have te: "target (final_dirs (move_to_target env [] d)) = target d" for d
    by (rule move_to_target_empty_target)
  have tm: "target (manual_crawl_resolve env fe new_reports fs) = target fs"
    using manual te [of fs] by auto
  have tc: "target (crawl_eastmoney_reports_resolve env fe new_reports fs) = target fs"
    using crawl te [of fs] by auto
  have ts: "target (scheduled_crawl_job_resolve env fe new_reports fs) = target fs"
    using te [of "crawl_eastmoney_reports_resolve env fe new_reports fs"] tc
    by (simp add: scheduled_crawl_job_resolve_def)
  have raises: "isl (move_to_target env [] fs) \<longleftrightarrow>
      \<not> makedirs_ok env \<or> listdir env (holding fs) = None"
  proof (cases "makedirs_ok env \<and> listdir env (holding fs) \<noteq> None")
    case True
    then obtain names where ok: "makedirs_ok env" "listdir env (holding fs) = Some names"
      by auto
    from move_to_target_empty_selection [OF ok] ok show ?thesis
      by auto
  next
    case False
    then have "move_to_target env [] fs = Inl (OSError, fs)"
      by (intro move_to_target_raises) auto
    with False show ?thesis
      by auto
  qed
  have unchanged: "final_dirs (move_to_target env [] fs) = fs"
    if "isl (move_to_target env [] fs)"
  proof -
    from that raises have "\<not> makedirs_ok env \<or> listdir env (holding fs) = None"
      by simp
    then have "move_to_target env [] fs = Inl (OSError, fs)"
      by (rule move_to_target_raises)
    then show ?thesis
      by (simp add: final_dirs_def)
  qed
  have deleted: "holding (final_dirs (move_to_target env [] fs)) f =
         (if endswith_pdf f \<and> f \<notin> locked env then None else holding fs f)"
    if ok: "makedirs_ok env \<and> lists_holding env fs" for f
  proof -
    from ok obtain names where names: "listdir env (holding fs) = Some names"
      and all_names: "set names = dom (holding fs)"
      by (auto simp: lists_holding_def split: option.splits)
    from ok have mk: "makedirs_ok env"
      by simp
    from move_to_target_empty_selection [OF mk names] obtain fs' where
      ret: "move_to_target env [] fs = Inr (fs', Map.empty)" and
      hold: "\<forall>f. holding fs' f =
            (if f \<in> set names \<and> endswith_pdf f \<and> f \<notin> locked env then None else holding fs f)"
      by blast
    have listed: "f \<in> set names \<longleftrightarrow> holding fs f \<noteq> None"
      using all_names by auto
    have "holding (final_dirs (move_to_target env [] fs)) f = holding fs' f"
      using ret by (simp add: final_dirs_def)
    also have "\<dots> = (if endswith_pdf f \<and> f \<notin> locked env then None else holding fs f)"
      using hold listed by auto
    finally show ?thesis .
  qed
  have unparsed: "move_to_target env (process_user_selection U selection_text all_infocodes) fs =
        move_to_target env [] fs"
    if "\<not> is_command (py_lower U (py_strip selection_text)) \<and>
        number_tokens U (py_lower U (py_strip selection_text)) = []"
  proof -
    from that have "process_user_selection U selection_text all_infocodes = []"
      by (simp add: process_user_selection_numbers chosen_indices_def)
    then show ?thesis
      by simp
  qed
  show ?thesis
    using unsent tm ts te [of fs] raises unchanged deleted unparsed by blast
qed

theorem no_selection_paths_witness:
  "\<not> send_report_list feishu_configured [cps ''AP1''] \<and>
   send_and_notify_reports feishu_configured [cps ''AP1''] = None \<and>
   makedirs_ok (os_with [cps ''AP1.pdf''] [] True) \<and>
   lists_holding (os_with [cps ''AP1.pdf''] [] True) (example_dirs (cps ''AP1.pdf'')) \<and>
   \<not> isl (move_to_target (os_with [cps ''AP1.pdf''] [] True) [] (example_dirs (cps ''AP1.pdf''))) \<and>
   placement (manual_crawl_resolve (os_with [cps ''AP1.pdf''] [] True) feishu_configured
                [cps ''AP1''] (example_dirs (cps ''AP1.pdf''))) (cps ''AP1.pdf'')
     = (Some (cps ''%PDF''), None) \<and>
   placement (scheduled_crawl_job_resolve (os_with [cps ''AP1.pdf''] [] True) feishu_configured
                [cps ''AP1''] (example_dirs (cps ''AP1.pdf''))) (cps ''AP1.pdf'')
     = (None, None) \<and>
   isl (move_to_target (os_without_target [cps ''AP1.pdf'']) [] (example_dirs (cps ''AP1.pdf''))) \<and>
   placement (scheduled_crawl_job_resolve (os_without_target [cps ''AP1.pdf'']) feishu_configured
                [cps ''AP1''] (example_dirs (cps ''AP1.pdf''))) (cps ''AP1.pdf'')
     = (Some (cps ''%PDF''), None) \<and>
   \<not> is_command (py_lower plain_tables (py_strip (cps ''thanks''))) \<and>
   number_tokens plain_tables (py_lower plain_tables (py_strip (cps ''thanks''))) = [] \<and>
   placement (final_dirs (move_to_target (os_with [cps ''AP1.pdf''] [] True)
                (process_user_selection plain_tables (cps ''thanks'') [cps ''AP1''])
                (example_dirs (cps ''AP1.pdf'')))) (cps ''AP1.pdf'')
     = (None, None)"
proof -
  let ?env = "os_with [cps ''AP1.pdf''] [] True"
  let ?bad = "os_without_target [cps ''AP1.pdf'']"
  let ?fs = "example_dirs (cps ''AP1.pdf'')"
  have unsent: "\<not> send_report_list feishu_configured [cps ''AP1'']"
    by (rule send_report_list_never_sends)
  have mk: "makedirs_ok ?env" and nomk: "\<not> makedirs_ok ?bad"
    by (simp_all add: os_with_def os_without_target_def)
  have ls: "lists_holding ?env ?fs"
    by (simp add: lists_holding_def os_with_def example_dirs_def)
  have pdf: "endswith_pdf (cps ''AP1.pdf'')" "cps ''AP1.pdf'' \<notin> locked ?env"
    by (simp_all add: endswith_pdf_def DOT_PDF_def cps_def suffix_to_prefix os_with_def)
  have start: "placement ?fs (cps ''AP1.pdf'') = (Some (cps ''%PDF''), None)"
    by (simp add: placement_def example_dirs_def)
  have c: "\<not> is_command (py_lower plain_tables (py_strip (cps ''thanks'')))"
    by (simp add: selection_eval is_command_def)
  have n: "number_tokens plain_tables (py_lower plain_tables (py_strip (cps ''thanks''))) = []"
    by (simp add: selection_eval number_tokens_def)
  note w = no_selection_paths [of feishu_configured "[cps ''AP1'']" ?env ?fs plain_tables
      "cps ''thanks''" "[cps ''AP1'']"]
  note b = no_selection_paths [of feishu_configured "[cps ''AP1'']" ?bad ?fs]
  have none: "send_and_notify_reports feishu_configured [cps ''AP1''] = None"
    and manual: "manual_crawl_resolve ?env feishu_configured [cps ''AP1''] ?fs = ?fs"
    and sched: "scheduled_crawl_job_resolve ?env feishu_configured [cps ''AP1''] ?fs
                  = final_dirs (move_to_target ?env [] ?fs)"
    using w unsent by blast+
  have returns: "\<not> isl (move_to_target ?env [] ?fs)"
    using w mk ls by (auto simp: lists_holding_def split: option.splits)
  have gone: "holding (final_dirs (move_to_target ?env [] ?fs)) (cps ''AP1.pdf'') = None"
    using w mk ls pdf by simp
  have kept_out: "target (final_dirs (move_to_target ?env [] ?fs)) (cps ''AP1.pdf'') = None"
    using w by (simp add: example_dirs_def)
  have raises: "isl (move_to_target ?bad [] ?fs)"
    using b nomk by blast
  have sched_bad: "scheduled_crawl_job_resolve ?bad feishu_configured [cps ''AP1''] ?fs = ?fs"
    using b unsent raises by simp
  have p_manual: "placement (manual_crawl_resolve ?env feishu_configured [cps ''AP1''] ?fs)
                    (cps ''AP1.pdf'') = (Some (cps ''%PDF''), None)"
    by (simp only: manual start)
  have p_sched: "placement (scheduled_crawl_job_resolve ?env feishu_configured [cps ''AP1''] ?fs)
                    (cps ''AP1.pdf'') = (None, None)"
    by (simp only: sched placement_def gone kept_out)
  have p_bad: "placement (scheduled_crawl_job_resolve ?bad feishu_configured [cps ''AP1''] ?fs)
                    (cps ''AP1.pdf'') = (Some (cps ''%PDF''), None)"
    by (simp only: sched_bad start)
  have "move_to_target ?env (process_user_selection plain_tables (cps ''thanks'') [cps ''AP1'']) ?fs
          = move_to_target ?env [] ?fs"
    using w c n by blast
  then have p_reply: "placement (final_dirs (move_to_target ?env
                        (process_user_selection plain_tables (cps ''thanks'') [cps ''AP1'']) ?fs))
                    (cps ''AP1.pdf'') = (None, None)"
    by (simp only: placement_def gone kept_out)
  show ?thesis
    using unsent none mk ls returns raises p_manual p_sched p_bad c n p_reply by blast
qed

end
